theory Spec2Isabelle
  imports Main "HOL-Library.Word"
begin

section \<open>The streaming audio pipeline of \<open>_AudioChunkStreamer\<close>\<close>

text \<open>
  The development follows \<^verbatim>\<open>src/elevenlabslib/ElevenLabsVoice.py\<close>, class
  \<^verbatim>\<open>_AudioChunkStreamer\<close>. Bytes are 8-bit words, Python \<^verbatim>\<open>bytes\<close> objects are
  lists of them, Python integers are \<open>int\<close> wherever a difference is taken.
\<close>

type_synonym byte = "8 word"

subsection \<open>\<^verbatim>\<open>io.BytesIO\<close>: the shared byte buffer\<close>

text \<open>
  \<^verbatim>\<open>self._bytesFile = io.BytesIO()\<close>: the bytes written so far and one cursor, shared by
  reads and writes. The operations are the ones the class calls on it.
\<close>

record bytesio =
  b_bytes :: "byte list"
  b_pos :: nat

definition BytesIO :: bytesio where
  "BytesIO = \<lparr>b_bytes = [], b_pos = 0\<rparr>"

definition tell :: "bytesio \<Rightarrow> nat" where
  "tell f = b_pos f"

text \<open>\<^verbatim>\<open>seek(n)\<close> moves the cursor to the absolute offset \<open>n\<close>, also beyond the end.\<close>

definition seek :: "nat \<Rightarrow> bytesio \<Rightarrow> bytesio" where
  "seek n f = f\<lparr>b_pos := n\<rparr>"

text \<open>\<^verbatim>\<open>seek(0, os.SEEK_END)\<close> moves the cursor to the logical end and returns it.\<close>

definition seek_end :: "bytesio \<Rightarrow> nat \<times> bytesio" where
  "seek_end f = (length (b_bytes f), f\<lparr>b_pos := length (b_bytes f)\<rparr>)"

text \<open>
  \<^verbatim>\<open>write(b)\<close> overwrites at the cursor and extends the buffer as needed; a cursor
  beyond the end is first reached by zero padding; writing nothing changes nothing.
\<close>

definition write_bytes :: "byte list \<Rightarrow> bytesio \<Rightarrow> bytesio" where
  "write_bytes bs f =
     (if bs = [] then f
      else let padded = b_bytes f @ replicate (b_pos f - length (b_bytes f)) 0
           in \<lparr>b_bytes = take (b_pos f) padded @ bs @ drop (b_pos f + length bs) padded,
               b_pos = b_pos f + length bs\<rparr>)"

text \<open>
  \<^verbatim>\<open>read(n)\<close> returns at most \<open>n\<close> bytes from the cursor on and advances the cursor by
  what it returned; \<^verbatim>\<open>read()\<close> returns everything from the cursor on.
\<close>

definition read :: "nat \<Rightarrow> bytesio \<Rightarrow> byte list \<times> bytesio" where
  "read n f =
     (let bs = take n (drop (b_pos f) (b_bytes f))
      in (bs, f\<lparr>b_pos := b_pos f + length bs\<rparr>))"

definition read_all :: "bytesio \<Rightarrow> byte list \<times> bytesio" where
  "read_all f =
     (let bs = drop (b_pos f) (b_bytes f)
      in (bs, f\<lparr>b_pos := b_pos f + length bs\<rparr>))"

subsection \<open>The six events\<close>

text \<open>\<^verbatim>\<open>self._events\<close>: one \<^verbatim>\<open>threading.Event\<close> per name, set or clear.\<close>

record events =
  playbackFinishedEvent :: bool
  headerReadyEvent :: bool
  soundFileReadyEvent :: bool
  downloadDoneEvent :: bool
  blockDataAvailable :: bool
  playbackStartFired :: bool

definition events_clear :: events where
  "events_clear = \<lparr>playbackFinishedEvent = False, headerReadyEvent = False,
     soundFileReadyEvent = False, downloadDoneEvent = False,
     blockDataAvailable = False, playbackStartFired = False\<rparr>"

subsection \<open>Exceptions\<close>

datatype exc =
    CallbackStop | CallbackAbort | AssertionError | ValueError
  | LibsndfileError | HTTPError

subsection \<open>The streamer object\<close>

text \<open>
  The fields of \<^verbatim>\<open>_AudioChunkStreamer\<close>. \<open>'sf\<close> is the type of \<^verbatim>\<open>sf.SoundFile\<close>
  handles. The two callbacks \<^verbatim>\<open>_onPlaybackStart\<close> and \<^verbatim>\<open>_onPlaybackEnd\<close> are
  observed through the number of times each was called, and \<^verbatim>\<open>logging.critical\<close>
  through the number of critical records.
\<close>

record 'sf streamer =
  queue :: "byte list list"
  bytesFile :: bytesio
  bytesSoundFile :: "'sf option"
  frameSize :: nat
  events :: events
  onPlaybackStart_calls :: nat
  onPlaybackEnd_calls :: nat
  critical_logs :: nat

text \<open>The state \<^verbatim>\<open>begin_streaming\<close> establishes before it starts the download thread.\<close>

definition fresh_streamer :: "'sf streamer" where
  "fresh_streamer = \<lparr>queue = [], bytesFile = BytesIO, bytesSoundFile = None,
     frameSize = 0, events = events_clear, onPlaybackStart_calls = 0,
     onPlaybackEnd_calls = 0, critical_logs = 0\<rparr>"

subsection \<open>\<^verbatim>\<open>_stream_playback_callback\<close>\<close>

text \<open>
  The output buffer \<^verbatim>\<open>outdata\<close> has a fixed length. A slice assignment
  \<^verbatim>\<open>outdata[lo:hi] = data\<close> needs \<open>data\<close> of exactly the slice's length.
\<close>

definition set_slice :: "nat \<Rightarrow> nat \<Rightarrow> byte list \<Rightarrow> byte list \<Rightarrow> exc + byte list" where
  "set_slice lo hi data outdata =
     (let hi' = min hi (length outdata); lo' = min lo hi'
      in if length data = hi' - lo'
         then Inr (take lo' outdata @ data @ drop hi' outdata)
         else Inl ValueError)"

text \<open>
  Lines 569-583: take items off the queue without blocking; an empty item is skipped
  while the download is not over; an empty queue stops the stream when the download is
  over and aborts it otherwise.
\<close>

fun pop_block :: "bool \<Rightarrow> byte list list \<Rightarrow> (exc + byte list) \<times> byte list list" where
  "pop_block done [] = (Inl (if done then CallbackStop else CallbackAbort), [])"
| "pop_block done (readData # rest) =
     (if length readData = 0 \<and> \<not> done then pop_block done rest
      else (Inr readData, rest))"

text \<open>Lines 586-589: the latch \<^verbatim>\<open>playbackStartFired\<close> and the call of the callback.\<close>

definition fire_playback_start :: "'sf streamer \<Rightarrow> 'sf streamer" where
  "fire_playback_start st =
     (if \<not> playbackStartFired (events st)
      then st\<lparr>events := (events st)\<lparr>playbackStartFired := True\<rparr>,
              onPlaybackStart_calls := onPlaybackStart_calls st + 1\<rparr>
      else st)"

text \<open>
  Lines 591-613: what goes into \<^verbatim>\<open>outdata\<close>. In the branch of an empty block the
  cursor of the shared buffer is moved to the end and stays there.
\<close>

definition fill_outdata ::
  "byte list \<Rightarrow> byte list \<Rightarrow> 'sf streamer \<Rightarrow> (exc + byte list) \<times> 'sf streamer" where
  "fill_outdata readData outdata st =
     (if 0 < length readData \<and> length readData < length outdata then
        (case set_slice 0 (length readData) readData outdata of
           Inl e \<Rightarrow> (Inl e, st)
         | Inr out1 \<Rightarrow>
             (set_slice (length readData) (length out1)
                (replicate (length outdata - length readData) 0) out1, st))
      else if length readData = 0 then
        (let oldPos = tell (bytesFile st);
             (endPos, f) = seek_end (bytesFile st);
             st' = st\<lparr>bytesFile := f\<rparr>
         in if oldPos = endPos \<and> downloadDoneEvent (events st') then (Inl CallbackStop, st')
            else (set_slice (length readData) (length outdata)
                    (replicate (length outdata - length readData) 0) outdata, st'))
      else (set_slice 0 (length outdata) readData outdata, st))"

definition stream_playback_callback ::
  "nat \<Rightarrow> byte list \<Rightarrow> nat \<Rightarrow> 'sf streamer \<Rightarrow> (exc + byte list) \<times> 'sf streamer" where
  "stream_playback_callback playbackBlockSize outdata frames st =
     (if frames \<noteq> playbackBlockSize then (Inl AssertionError, st)
      else case pop_block (downloadDoneEvent (events st)) (queue st) of
             (Inl e, rest) \<Rightarrow> (Inl e, st\<lparr>queue := rest\<rparr>)
           | (Inr readData, rest) \<Rightarrow>
               fill_outdata readData outdata (fire_playback_start (st\<lparr>queue := rest\<rparr>)))"

subsection \<open>The downloader's critical section\<close>

text \<open>
  Lines 543-559 of \<^verbatim>\<open>_stream_downloader_function\<close>, the block under
  \<^verbatim>\<open>with self._bytesLock\<close> that writes one chunk. \<open>playbackBlockSize\<close> is the global
  \<^verbatim>\<open>_playbackBlockSize\<close>. The difference \<^verbatim>\<open>endPos - lastReadPos\<close> is a difference of
  Python integers.
\<close>

definition stream_downloader_write :: "nat \<Rightarrow> byte list \<Rightarrow> 'sf streamer \<Rightarrow> 'sf streamer" where
  "stream_downloader_write playbackBlockSize chunk st =
     (if \<not> headerReadyEvent (events st) then
        (let (_, f1) = seek_end (bytesFile st);
             f2 = write_bytes chunk f1;
             f3 = seek 0 f2
         in st\<lparr>bytesFile := f3, events := (events st)\<lparr>headerReadyEvent := True\<rparr>\<rparr>)
      else
        (let lastReadPos = tell (bytesFile st);
             (lastWritePos, f1) = seek_end (bytesFile st);
             f2 = write_bytes chunk f1;
             endPos = tell f2;
             f3 = seek lastReadPos f2
         in if int endPos - int lastReadPos > int playbackBlockSize
            then st\<lparr>bytesFile := f3, events := (events st)\<lparr>blockDataAvailable := True\<rparr>\<rparr>
            else st\<lparr>bytesFile := f3\<rparr>))"

subsection \<open>The handler of a failed parser construction\<close>

text \<open>
  Lines 483-488 of \<^verbatim>\<open>begin_streaming\<close>, the \<^verbatim>\<open>except sf.LibsndfileError\<close> branch:
  rewind, read everything (for the log record), rewind again, clear
  \<^verbatim>\<open>headerReadyEvent\<close>, set \<^verbatim>\<open>soundFileReadyEvent\<close>.
\<close>

definition soundfile_error_handler :: "'sf streamer \<Rightarrow> 'sf streamer" where
  "soundfile_error_handler st =
     (let f1 = seek 0 (bytesFile st);
          (dataBytes, f2) = read_all f1;
          f3 = seek 0 f2;
          ev1 = (events st)\<lparr>headerReadyEvent := False\<rparr>;
          ev2 = ev1\<lparr>soundFileReadyEvent := True\<rparr>
      in st\<lparr>bytesFile := f3, events := ev2\<rparr>)"

subsection \<open>The \<^verbatim>\<open>soundfile\<close> library\<close>

text \<open>
  \<^verbatim>\<open>soundfile\<close> is an external library; the streamer is verified for every behaviour of
  it. A library is given by the operations the streamer calls. Each one sees the bytes
  of the shared buffer and its cursor, cannot change the bytes, and returns the cursor
  where it left it; a handle is a value, so an operation that changes the handle returns
  the changed one, also when it raises.
  \<^item> \<open>sf_open\<close>: \<^verbatim>\<open>sf.SoundFile(self._bytesFile)\<close>;
  \<^item> \<open>sf_buffer_read\<close>: \<^verbatim>\<open>buffer_read(frames, dtype="float32")\<close>;
  \<^item> \<open>sf_seek\<close>: \<^verbatim>\<open>seek(frames)\<close>;
  \<^item> \<open>sf_tell\<close>, \<open>sf_frames\<close>, \<open>sf_channels\<close>: \<^verbatim>\<open>tell()\<close>, \<^verbatim>\<open>frames\<close>,
    \<^verbatim>\<open>channels\<close>.
\<close>

record 'sf soundfile_lib =
  sf_open :: "byte list \<Rightarrow> nat \<Rightarrow> (exc + 'sf) \<times> nat"
  sf_buffer_read :: "'sf \<Rightarrow> int \<Rightarrow> byte list \<Rightarrow> nat \<Rightarrow> (exc + byte list) \<times> 'sf \<times> nat"
  sf_seek :: "'sf \<Rightarrow> int \<Rightarrow> byte list \<Rightarrow> nat \<Rightarrow> (exc + unit) \<times> 'sf \<times> nat"
  sf_tell :: "'sf \<Rightarrow> int"
  sf_frames :: "'sf \<Rightarrow> int"
  sf_channels :: "'sf \<Rightarrow> nat"

text \<open>\<^verbatim>\<open>sf._ffi.sizeof\<close> of the sample type of \<^verbatim>\<open>_defaultDType = "float32"\<close>.\<close>

definition sizeof_defaultDType :: nat where
  "sizeof_defaultDType = 4"

subsection \<open>\<^verbatim>\<open>_soundFile_read_and_fix\<close>\<close>

text \<open>
  The function runs with the lock held. \<^verbatim>\<open>int(len(readData) / self._frameSize)\<close> is
  the integer quotient (the division is only reached with a positive frame size, since
  a length is never below zero). An exception leaves the object as it was when raised.
  A streamer without a handle cannot reach the function: \<^verbatim>\<open>begin_streaming\<close> leaves
  its first loop only with a handle; the model raises \<open>ValueError\<close> there.
\<close>

definition soundFile_read_and_fix ::
  "'sf soundfile_lib \<Rightarrow> int \<Rightarrow> 'sf streamer \<Rightarrow> (exc + byte list) \<times> 'sf streamer" where
  "soundFile_read_and_fix lib dataToRead st =
     (case bytesSoundFile st of
        None \<Rightarrow> (Inl ValueError, st)
      | Some sf0 \<Rightarrow>
         (case sf_buffer_read lib sf0 dataToRead (b_bytes (bytesFile st)) (b_pos (bytesFile st)) of
            (Inl e, sf1, p1) \<Rightarrow>
              (Inl e, st\<lparr>bytesSoundFile := Some sf1, bytesFile := seek p1 (bytesFile st)\<rparr>)
          | (Inr readData, sf1, p1) \<Rightarrow>
              (let st1 = st\<lparr>bytesSoundFile := Some sf1, bytesFile := seek p1 (bytesFile st)\<rparr>
               in if int (length readData) < dataToRead * int (frameSize st1) then
                    (let curPos = tell (bytesFile st1);
                         (endPos, f2) = seek_end (bytesFile st1);
                         st2 = st1\<lparr>bytesFile := f2\<rparr>
                     in if curPos \<noteq> endPos then
                          (let f3 = seek 0 (bytesFile st2)
                           in case sf_open lib (b_bytes f3) (b_pos f3) of
                                (Inl e, p4) \<Rightarrow> (Inl e, st2\<lparr>bytesFile := seek p4 f3\<rparr>)
                              | (Inr newSF, p4) \<Rightarrow>
                                  (case sf_seek lib newSF
                                          (sf_tell lib sf1 - int (length readData div frameSize st2))
                                          (b_bytes f3) p4 of
                                     (Inl e, newSF1, p5) \<Rightarrow> (Inl e, st2\<lparr>bytesFile := seek p5 f3\<rparr>)
                                   | (Inr _, newSF1, p5) \<Rightarrow>
                                       (if sf_frames lib newSF1 > sf_frames lib sf1 then
                                          (case sf_buffer_read lib newSF1 dataToRead (b_bytes f3) p5 of
                                             (r, newSF2, p6) \<Rightarrow>
                                               (r, st2\<lparr>bytesSoundFile := Some newSF2,
                                                       bytesFile := seek p6 f3\<rparr>))
                                        else (Inr readData, st2\<lparr>bytesFile := seek p5 f3\<rparr>))))
                        else (Inr readData, st2))
                  else (Inr readData, st1))))"

subsection \<open>\<^verbatim>\<open>_get_data_from_download_thread\<close>\<close>

text \<open>
  Lines 638-661, after the wait on \<^verbatim>\<open>blockDataAvailable\<close> has returned: only
  \<^verbatim>\<open>AssertionError\<close> is caught; any other exception leaves the function.
\<close>

definition get_data_locked ::
  "'sf soundfile_lib \<Rightarrow> nat \<Rightarrow> 'sf streamer \<Rightarrow> (exc + byte list) \<times> 'sf streamer" where
  "get_data_locked lib playbackBlockSize st =
     (let (r, st1) = soundFile_read_and_fix lib (int playbackBlockSize) st
      in case (case r of Inl AssertionError \<Rightarrow> Inr [] | Inl e \<Rightarrow> Inl e | Inr d \<Rightarrow> Inr d) of
           Inl e \<Rightarrow> (Inl e, st1)
         | Inr readData \<Rightarrow>
             (let currentPos = tell (bytesFile st1);
                  (_, f1) = seek_end (bytesFile st1);
                  endPos = tell f1;
                  f2 = seek currentPos f1;
                  remainingBytes = int endPos - int currentPos;
                  st2 = st1\<lparr>bytesFile := f2\<rparr>
              in if remainingBytes < int playbackBlockSize \<and> \<not> downloadDoneEvent (events st2)
                 then (Inr readData, st2\<lparr>events := (events st2)\<lparr>blockDataAvailable := False\<rparr>\<rparr>)
                 else (Inr readData, st2)))"

text \<open>
  The whole function: \<^verbatim>\<open>self._events["blockDataAvailable"].wait()\<close> returns only when
  the event is set; \<open>None\<close> is the call that does not get past the wait.
\<close>

definition get_data_from_download_thread ::
  "'sf soundfile_lib \<Rightarrow> nat \<Rightarrow> 'sf streamer \<Rightarrow> ((exc + byte list) \<times> 'sf streamer) option" where
  "get_data_from_download_thread lib playbackBlockSize st =
     (if blockDataAvailable (events st) then Some (get_data_locked lib playbackBlockSize st)
      else None)"

subsection \<open>The feed loop of \<^verbatim>\<open>begin_streaming\<close>\<close>

datatype loop_ctl = Continue | Break

text \<open>
  Lines 498-517: what one iteration does with the block \<open>data\<close> it got. A full block is
  queued. Otherwise the cursor is compared with the logical end (and put back); at the
  end with the download over the loop is left, after queueing what is left; in any other
  case a critical record is logged and the iteration is over.
\<close>

definition feed_check :: "nat \<Rightarrow> byte list \<Rightarrow> 'sf streamer \<Rightarrow> loop_ctl \<times> 'sf streamer" where
  "feed_check playbackBlockSize data st =
     (if length data = playbackBlockSize * frameSize st
      then (Continue, st\<lparr>queue := queue st @ [data]\<rparr>)
      else
        (let curPos = tell (bytesFile st);
             (endPos, f1) = seek_end (bytesFile st);
             f2 = seek curPos f1;
             st1 = st\<lparr>bytesFile := f2\<rparr>
         in if endPos = curPos \<and> downloadDoneEvent (events st1)
            then (Break, if data \<noteq> [] then st1\<lparr>queue := queue st1 @ [data]\<rparr> else st1)
            else (Continue, st1\<lparr>critical_logs := critical_logs st1 + 1\<rparr>)))"

subsection \<open>The three threads of a session\<close>

text \<open>
  A session has the thread that runs \<^verbatim>\<open>begin_streaming\<close>, the download thread that
  runs \<^verbatim>\<open>_stream_downloader_function\<close>, and the audio device's thread that calls
  \<^verbatim>\<open>_stream_playback_callback\<close>. A thread is at a program point; one step of a thread
  is one statement (one call on the shared buffer, one event operation, one lock
  operation), and any thread that can take a step may be the next one to do so. A
  thread that waits for an event or for the lock has no step until the event is set or
  the lock is free. Statements that only log are left out. One invocation of the
  playback callback is one step.
\<close>

datatype thread = MainThread | DownloadThread | CallbackThread

text \<open>Program points of \<^verbatim>\<open>begin_streaming\<close>, named after what is executed next.\<close>

datatype main_pc =
    M_wait_header
  | M_lock_header
  | M_open
  | M_set_ready
  | M_unlock_header
  | M_except_seek
  | M_except_read
  | M_except_seek_again
  | M_except_clear
  | M_except_set
  | M_open_stream
  | M_wait_block
  | M_lock_get
  | M_read
  | M_measure
  | M_check_remaining
  | M_clear_block
  | M_unlock_get
  | M_compare
  | M_put
  | M_lock_end
  | M_end_pos
  | M_end_check
  | M_end_put
  | M_critical
  | M_unlock_break
  | M_unlock_continue
  | M_wait_finished
  | M_playback_end
  | M_close_stream
  | M_returned
  | M_raised

text \<open>Program points of \<^verbatim>\<open>_stream_downloader_function\<close>.\<close>

datatype download_pc =
    D_raise_for_status
  | D_next_chunk
  | D_check_header
  | D_wait_soundfile
  | D_recheck_header
  | D_clear_soundfile
  | D_lock
  | D_branch
  | D_first_seek_end
  | D_first_write
  | D_first_seek_start
  | D_first_set_header
  | D_tell
  | D_seek_end
  | D_write
  | D_tell_end
  | D_seek_back
  | D_compare
  | D_set_block
  | D_unlock
  | D_set_done
  | D_set_block_final
  | D_returned
  | D_raised

datatype stream_state = NotOpened | Active | Finished

text \<open>
  The state of a session: the streamer object, the holder of \<^verbatim>\<open>_bytesLock\<close>, the
  program points, the output stream, the streamed response (its status and the chunks
  \<^verbatim>\<open>iter_content\<close> has not produced yet), the local variables of the two functions,
  the exception that left \<^verbatim>\<open>begin_streaming\<close>, and the buffers handed to the device.
\<close>

record 'sf system =
  self :: "'sf streamer"
  bytesLock :: "thread option"
  main_at :: main_pc
  download_at :: download_pc
  out_stream :: stream_state
  status_ok :: bool
  pending :: "byte list list"
  d_chunk :: "byte list"
  d_lastReadPos :: nat
  d_endPos :: nat
  m_data :: "byte list"
  m_remainingBytes :: int
  m_curPos :: nat
  m_endPos :: nat
  m_exc :: "exc option"
  played :: "byte list list"

text \<open>
  The state after lines 462-469: buffers and events reset, download thread started.
\<close>

definition initial_system :: "bool \<Rightarrow> byte list list \<Rightarrow> 'sf system" where
  "initial_system ok chunks =
     \<lparr>self = fresh_streamer, bytesLock = None, main_at = M_wait_header,
      download_at = D_raise_for_status, out_stream = NotOpened, status_ok = ok,
      pending = chunks, d_chunk = [], d_lastReadPos = 0, d_endPos = 0, m_data = [],
      m_remainingBytes = 0, m_curPos = 0, m_endPos = 0, m_exc = None, played = []\<rparr>"

definition ev :: "'sf system \<Rightarrow> events" where
  "ev s = events (self s)"

definition on_events :: "(events \<Rightarrow> events) \<Rightarrow> 'sf system \<Rightarrow> 'sf system" where
  "on_events f s = s\<lparr>self := (self s)\<lparr>events := f (events (self s))\<rparr>\<rparr>"

definition on_file :: "(bytesio \<Rightarrow> bytesio) \<Rightarrow> 'sf system \<Rightarrow> 'sf system" where
  "on_file f s = s\<lparr>self := (self s)\<lparr>bytesFile := f (bytesFile (self s))\<rparr>\<rparr>"

text \<open>
  One step of \<^verbatim>\<open>begin_streaming\<close>. An exception other than the one handled leaves the
  function (through the \<^verbatim>\<open>with\<close> blocks it is in: the lock of line 476 is released,
  the lock acquired in line 638 is not, the stream is closed).
\<close>

definition main_step :: "'sf soundfile_lib \<Rightarrow> nat \<Rightarrow> 'sf system \<Rightarrow> 'sf system option" where
  "main_step lib playbackBlockSize s =
     (case main_at s of
        M_wait_header \<Rightarrow>
          if headerReadyEvent (ev s) then Some (s\<lparr>main_at := M_lock_header\<rparr>) else None
      | M_lock_header \<Rightarrow>
          if bytesLock s = None
          then Some (s\<lparr>bytesLock := Some MainThread, main_at := M_open\<rparr>) else None
      | M_open \<Rightarrow>
          (case sf_open lib (b_bytes (bytesFile (self s))) (b_pos (bytesFile (self s))) of
             (Inr sf, p) \<Rightarrow>
               Some (s\<lparr>self := (self s)\<lparr>bytesFile := seek p (bytesFile (self s)),
                                        bytesSoundFile := Some sf,
                                        frameSize := sf_channels lib sf * sizeof_defaultDType\<rparr>,
                       main_at := M_set_ready\<rparr>)
           | (Inl e, p) \<Rightarrow>
               if e = LibsndfileError
               then Some ((on_file (seek p) s)\<lparr>bytesLock := None, main_at := M_except_seek\<rparr>)
               else Some ((on_file (seek p) s)\<lparr>bytesLock := None, main_at := M_raised,
                                               m_exc := Some e\<rparr>))
      | M_set_ready \<Rightarrow>
          Some ((on_events (\<lambda>e. e\<lparr>soundFileReadyEvent := True\<rparr>) s)\<lparr>main_at := M_unlock_header\<rparr>)
      | M_unlock_header \<Rightarrow> Some (s\<lparr>bytesLock := None, main_at := M_open_stream\<rparr>)
      | M_except_seek \<Rightarrow> Some ((on_file (seek 0) s)\<lparr>main_at := M_except_read\<rparr>)
      | M_except_read \<Rightarrow>
          Some ((on_file (\<lambda>f. snd (read_all f)) s)\<lparr>main_at := M_except_seek_again\<rparr>)
      | M_except_seek_again \<Rightarrow> Some ((on_file (seek 0) s)\<lparr>main_at := M_except_clear\<rparr>)
      | M_except_clear \<Rightarrow>
          Some ((on_events (\<lambda>e. e\<lparr>headerReadyEvent := False\<rparr>) s)\<lparr>main_at := M_except_set\<rparr>)
      | M_except_set \<Rightarrow>
          Some ((on_events (\<lambda>e. e\<lparr>soundFileReadyEvent := True\<rparr>) s)\<lparr>main_at := M_wait_header\<rparr>)
      | M_open_stream \<Rightarrow> Some (s\<lparr>out_stream := Active, main_at := M_wait_block\<rparr>)
      | M_wait_block \<Rightarrow>
          if blockDataAvailable (ev s) then Some (s\<lparr>main_at := M_lock_get\<rparr>) else None
      | M_lock_get \<Rightarrow>
          if bytesLock s = None
          then Some (s\<lparr>bytesLock := Some MainThread, main_at := M_read\<rparr>) else None
      | M_read \<Rightarrow>
          (case soundFile_read_and_fix lib (int playbackBlockSize) (self s) of
             (Inr readData, st) \<Rightarrow> Some (s\<lparr>self := st, m_data := readData, main_at := M_measure\<rparr>)
           | (Inl e, st) \<Rightarrow>
               if e = AssertionError
               then Some (s\<lparr>self := st, m_data := [], main_at := M_measure\<rparr>)
               else Some (s\<lparr>self := st, out_stream := Finished, main_at := M_raised,
                           m_exc := Some e\<rparr>))
      | M_measure \<Rightarrow>
          (let currentPos = tell (bytesFile (self s));
               (_, f1) = seek_end (bytesFile (self s));
               endPos = tell f1;
               f2 = seek currentPos f1
           in Some ((on_file (\<lambda>_. f2) s)\<lparr>m_remainingBytes := int endPos - int currentPos,
                                           main_at := M_check_remaining\<rparr>))
      | M_check_remaining \<Rightarrow>
          if m_remainingBytes s < int playbackBlockSize \<and> \<not> downloadDoneEvent (ev s)
          then Some (s\<lparr>main_at := M_clear_block\<rparr>)
          else Some (s\<lparr>main_at := M_unlock_get\<rparr>)
      | M_clear_block \<Rightarrow>
          Some ((on_events (\<lambda>e. e\<lparr>blockDataAvailable := False\<rparr>) s)\<lparr>main_at := M_unlock_get\<rparr>)
      | M_unlock_get \<Rightarrow> Some (s\<lparr>bytesLock := None, main_at := M_compare\<rparr>)
      | M_compare \<Rightarrow>
          if length (m_data s) = playbackBlockSize * frameSize (self s)
          then Some (s\<lparr>main_at := M_put\<rparr>) else Some (s\<lparr>main_at := M_lock_end\<rparr>)
      | M_put \<Rightarrow>
          Some (s\<lparr>self := (self s)\<lparr>queue := queue (self s) @ [m_data s]\<rparr>,
                   main_at := M_wait_block\<rparr>)
      | M_lock_end \<Rightarrow>
          if bytesLock s = None
          then Some (s\<lparr>bytesLock := Some MainThread, main_at := M_end_pos\<rparr>) else None
      | M_end_pos \<Rightarrow>
          (let curPos = tell (bytesFile (self s));
               (endPos, f1) = seek_end (bytesFile (self s));
               f2 = seek curPos f1
           in Some ((on_file (\<lambda>_. f2) s)\<lparr>m_curPos := curPos, m_endPos := endPos,
                                           main_at := M_end_check\<rparr>))
      | M_end_check \<Rightarrow>
          if m_endPos s = m_curPos s \<and> downloadDoneEvent (ev s)
          then Some (s\<lparr>main_at := M_end_put\<rparr>) else Some (s\<lparr>main_at := M_critical\<rparr>)
      | M_end_put \<Rightarrow>
          if m_data s \<noteq> []
          then Some (s\<lparr>self := (self s)\<lparr>queue := queue (self s) @ [m_data s]\<rparr>,
                       main_at := M_unlock_break\<rparr>)
          else Some (s\<lparr>main_at := M_unlock_break\<rparr>)
      | M_critical \<Rightarrow>
          Some (s\<lparr>self := (self s)\<lparr>critical_logs := critical_logs (self s) + 1\<rparr>,
                   main_at := M_unlock_continue\<rparr>)
      | M_unlock_break \<Rightarrow> Some (s\<lparr>bytesLock := None, main_at := M_wait_finished\<rparr>)
      | M_unlock_continue \<Rightarrow> Some (s\<lparr>bytesLock := None, main_at := M_wait_block\<rparr>)
      | M_wait_finished \<Rightarrow>
          if playbackFinishedEvent (ev s) then Some (s\<lparr>main_at := M_playback_end\<rparr>) else None
      | M_playback_end \<Rightarrow>
          Some (s\<lparr>self := (self s)\<lparr>onPlaybackEnd_calls := onPlaybackEnd_calls (self s) + 1\<rparr>,
                   main_at := M_close_stream\<rparr>)
      | M_close_stream \<Rightarrow> Some (s\<lparr>out_stream := Finished, main_at := M_returned\<rparr>)
      | M_returned \<Rightarrow> None
      | M_raised \<Rightarrow> None)"

text \<open>
  One step of \<^verbatim>\<open>_stream_downloader_function\<close>. \<^verbatim>\<open>raise_for_status\<close> raises in the
  download thread; an exception that leaves a thread's function ends that thread and no
  other.
\<close>

definition download_step :: "nat \<Rightarrow> 'sf system \<Rightarrow> 'sf system option" where
  "download_step playbackBlockSize s =
     (case download_at s of
        D_raise_for_status \<Rightarrow>
          if status_ok s then Some (s\<lparr>download_at := D_next_chunk\<rparr>)
          else Some (s\<lparr>download_at := D_raised\<rparr>)
      | D_next_chunk \<Rightarrow>
          (case pending s of
             [] \<Rightarrow> Some (s\<lparr>download_at := D_set_done\<rparr>)
           | c # cs \<Rightarrow> Some (s\<lparr>d_chunk := c, pending := cs, download_at := D_check_header\<rparr>))
      | D_check_header \<Rightarrow>
          if headerReadyEvent (ev s) then Some (s\<lparr>download_at := D_wait_soundfile\<rparr>)
          else Some (s\<lparr>download_at := D_lock\<rparr>)
      | D_wait_soundfile \<Rightarrow>
          if soundFileReadyEvent (ev s) then Some (s\<lparr>download_at := D_recheck_header\<rparr>)
          else None
      | D_recheck_header \<Rightarrow>
          if \<not> headerReadyEvent (ev s) then Some (s\<lparr>download_at := D_clear_soundfile\<rparr>)
          else Some (s\<lparr>download_at := D_lock\<rparr>)
      | D_clear_soundfile \<Rightarrow>
          Some ((on_events (\<lambda>e. e\<lparr>soundFileReadyEvent := False\<rparr>) s)\<lparr>download_at := D_lock\<rparr>)
      | D_lock \<Rightarrow>
          if bytesLock s = None
          then Some (s\<lparr>bytesLock := Some DownloadThread, download_at := D_branch\<rparr>) else None
      | D_branch \<Rightarrow>
          if \<not> headerReadyEvent (ev s) then Some (s\<lparr>download_at := D_first_seek_end\<rparr>)
          else Some (s\<lparr>download_at := D_tell\<rparr>)
      | D_first_seek_end \<Rightarrow>
          Some ((on_file (\<lambda>f. snd (seek_end f)) s)\<lparr>download_at := D_first_write\<rparr>)
      | D_first_write \<Rightarrow>
          Some ((on_file (write_bytes (d_chunk s)) s)\<lparr>download_at := D_first_seek_start\<rparr>)
      | D_first_seek_start \<Rightarrow>
          Some ((on_file (seek 0) s)\<lparr>download_at := D_first_set_header\<rparr>)
      | D_first_set_header \<Rightarrow>
          Some ((on_events (\<lambda>e. e\<lparr>headerReadyEvent := True\<rparr>) s)\<lparr>download_at := D_unlock\<rparr>)
      | D_tell \<Rightarrow>
          Some (s\<lparr>d_lastReadPos := tell (bytesFile (self s)), download_at := D_seek_end\<rparr>)
      | D_seek_end \<Rightarrow>
          Some ((on_file (\<lambda>f. snd (seek_end f)) s)\<lparr>download_at := D_write\<rparr>)
      | D_write \<Rightarrow>
          Some ((on_file (write_bytes (d_chunk s)) s)\<lparr>download_at := D_tell_end\<rparr>)
      | D_tell_end \<Rightarrow>
          Some (s\<lparr>d_endPos := tell (bytesFile (self s)), download_at := D_seek_back\<rparr>)
      | D_seek_back \<Rightarrow>
          Some ((on_file (seek (d_lastReadPos s)) s)\<lparr>download_at := D_compare\<rparr>)
      | D_compare \<Rightarrow>
          if int (d_endPos s) - int (d_lastReadPos s) > int playbackBlockSize
          then Some (s\<lparr>download_at := D_set_block\<rparr>) else Some (s\<lparr>download_at := D_unlock\<rparr>)
      | D_set_block \<Rightarrow>
          Some ((on_events (\<lambda>e. e\<lparr>blockDataAvailable := True\<rparr>) s)\<lparr>download_at := D_unlock\<rparr>)
      | D_unlock \<Rightarrow> Some (s\<lparr>bytesLock := None, download_at := D_next_chunk\<rparr>)
      | D_set_done \<Rightarrow>
          Some ((on_events (\<lambda>e. e\<lparr>downloadDoneEvent := True\<rparr>) s)\<lparr>download_at := D_set_block_final\<rparr>)
      | D_set_block_final \<Rightarrow>
          Some ((on_events (\<lambda>e. e\<lparr>blockDataAvailable := True\<rparr>) s)\<lparr>download_at := D_returned\<rparr>)
      | D_returned \<Rightarrow> None
      | D_raised \<Rightarrow> None)"

text \<open>
  One invocation of the playback callback by the device, while the stream is active.
  The device asks for \<^verbatim>\<open>_playbackBlockSize\<close> frames and hands over a buffer of that
  many frames. The invocation that would take the lock (the one that gets an empty
  block) does not start while the lock is held. An exception raised by the callback
  ends the stream, and the stream's \<^verbatim>\<open>finished_callback\<close> sets
  \<^verbatim>\<open>playbackFinishedEvent\<close>.
\<close>

definition callback_step :: "nat \<Rightarrow> 'sf system \<Rightarrow> 'sf system option" where
  "callback_step playbackBlockSize s =
     (if out_stream s \<noteq> Active then None
      else if fst (pop_block (downloadDoneEvent (ev s)) (queue (self s))) = Inr []
              \<and> bytesLock s \<noteq> None then None
      else
        (case stream_playback_callback playbackBlockSize
                (replicate (playbackBlockSize * frameSize (self s)) 0) playbackBlockSize (self s) of
           (Inl e, st) \<Rightarrow>
             Some (s\<lparr>self := st\<lparr>events := (events st)\<lparr>playbackFinishedEvent := True\<rparr>\<rparr>,
                     out_stream := Finished\<rparr>)
         | (Inr out, st) \<Rightarrow> Some (s\<lparr>self := st, played := played s @ [out]\<rparr>)))"

definition system_step ::
  "'sf soundfile_lib \<Rightarrow> nat \<Rightarrow> thread \<Rightarrow> 'sf system \<Rightarrow> 'sf system option" where
  "system_step lib playbackBlockSize t s =
     (case t of
        MainThread \<Rightarrow> main_step lib playbackBlockSize s
      | DownloadThread \<Rightarrow> download_step playbackBlockSize s
      | CallbackThread \<Rightarrow> callback_step playbackBlockSize s)"

text \<open>A schedule names the thread of each step; it cannot be run if a named thread has no step.\<close>

fun run_schedule ::
  "'sf soundfile_lib \<Rightarrow> nat \<Rightarrow> thread list \<Rightarrow> 'sf system \<Rightarrow> 'sf system option" where
  "run_schedule lib playbackBlockSize [] s = Some s"
| "run_schedule lib playbackBlockSize (t # ts) s =
     (case system_step lib playbackBlockSize t s of
        None \<Rightarrow> None
      | Some s' \<Rightarrow> run_schedule lib playbackBlockSize ts s')"

text \<open>The states a session can be in, for a library, a block size and a response.\<close>

inductive reachable ::
  "'sf soundfile_lib \<Rightarrow> nat \<Rightarrow> bool \<Rightarrow> byte list list \<Rightarrow> 'sf system \<Rightarrow> bool"
  for lib :: "'sf soundfile_lib" and playbackBlockSize :: nat and ok :: bool
    and chunks :: "byte list list" where
  reachable_initial: "reachable lib playbackBlockSize ok chunks (initial_system ok chunks)"
| reachable_step:
    "reachable lib playbackBlockSize ok chunks s \<Longrightarrow>
     system_step lib playbackBlockSize t s = Some s' \<Longrightarrow>
     reachable lib playbackBlockSize ok chunks s'"

subsection \<open>A small library for concrete runs\<close>

text \<open>
  A library of uncompressed sound: a header of two bytes (the byte \<open>82\<close> and the number
  of channels, not zero) followed by frames of 4 bytes per channel. The number of frames
  is fixed when the file is opened, from the bytes present then, as a parser does that
  reads a length once. \<open>buffer_read\<close> limits the request to the frames it believes are
  left and raises when it gets fewer than that.
\<close>

record raw_handle =
  raw_channels :: nat
  raw_frames :: int
  raw_at :: int

definition raw_open :: "byte list \<Rightarrow> nat \<Rightarrow> (exc + raw_handle) \<times> nat" where
  "raw_open bs p =
     (case drop p bs of
        magic # c # rest \<Rightarrow>
          if magic = 82 \<and> c \<noteq> 0
          then (Inr \<lparr>raw_channels = unat c,
                     raw_frames = int (length rest div (unat c * 4)), raw_at = 0\<rparr>, p + 2)
          else (Inl LibsndfileError, p + 2)
      | _ \<Rightarrow> (Inl LibsndfileError, p + length (drop p bs)))"

definition raw_buffer_read ::
  "raw_handle \<Rightarrow> int \<Rightarrow> byte list \<Rightarrow> nat \<Rightarrow> (exc + byte list) \<times> raw_handle \<times> nat" where
  "raw_buffer_read h n bs p =
     (let left = raw_frames h - raw_at h;
          want = (if n < 0 \<or> n > left then left else n);
          fs = raw_channels h * 4;
          got = min (nat want) (length (drop p bs) div fs);
          out = take (got * fs) (drop p bs)
      in (if int got = want then Inr out else Inl AssertionError,
          h\<lparr>raw_at := raw_at h + int got\<rparr>, p + length out))"

definition raw_seek ::
  "raw_handle \<Rightarrow> int \<Rightarrow> byte list \<Rightarrow> nat \<Rightarrow> (exc + unit) \<times> raw_handle \<times> nat" where
  "raw_seek h k bs p =
     (if 0 \<le> k \<and> k \<le> raw_frames h
      then (Inr (), h\<lparr>raw_at := k\<rparr>, 2 + nat k * (raw_channels h * 4))
      else (Inl LibsndfileError, h, p))"

definition raw_lib :: "raw_handle soundfile_lib" where
  "raw_lib = \<lparr>sf_open = raw_open, sf_buffer_read = raw_buffer_read, sf_seek = raw_seek,
     sf_tell = raw_at, sf_frames = raw_frames, sf_channels = raw_channels\<rparr>"

text \<open>Two responses for concrete runs: a header and one block of two frames; a header cut in two.\<close>

definition sound_two_chunks :: "byte list list" where
  "sound_two_chunks = [[82, 1], [1, 2, 3, 4, 5, 6, 7, 8]]"

definition split_header_chunks :: "byte list list" where
  "split_header_chunks = [[82], [1]]"

text \<open>
  Two streamers for concrete runs: one whose handle was opened before the frames
  arrived, and one whose handle counts a frame more than the buffer holds.
\<close>

definition stale_streamer :: "raw_handle streamer" where
  "stale_streamer = fresh_streamer
     \<lparr>bytesFile := \<lparr>b_bytes = [82, 1, 1, 2, 3, 4, 5, 6, 7, 8], b_pos = 2\<rparr>,
      bytesSoundFile := Some \<lparr>raw_channels = 1, raw_frames = 0, raw_at = 0\<rparr>,
      frameSize := 4\<rparr>"

definition overcounting_streamer :: "raw_handle streamer" where
  "overcounting_streamer = fresh_streamer
     \<lparr>bytesFile := \<lparr>b_bytes = [82, 1, 1, 2, 3, 4], b_pos = 2\<rparr>,
      bytesSoundFile := Some \<lparr>raw_channels = 1, raw_frames = 2, raw_at = 0\<rparr>,
      frameSize := 4\<rparr>"


definition bad_header_chunks :: "byte list list" where
  "bad_header_chunks = [[82], [0], [9, 9]]"

definition partial_frame_chunks :: "byte list list" where
  "partial_frame_chunks = [[82, 1, 1, 2, 3, 4], [5, 6]]"

text \<open>
  Three more streamers: one whose handle and buffer agree on one frame, with half a
  frame after it; one whose buffer does not start with a header; one whose handle
  stands beyond the frames of the buffer.
\<close>

definition short_streamer :: "raw_handle streamer" where
  "short_streamer = fresh_streamer
     \<lparr>bytesFile := \<lparr>b_bytes = [82, 1, 1, 2, 3, 4, 5, 6], b_pos = 2\<rparr>,
      bytesSoundFile := Some \<lparr>raw_channels = 1, raw_frames = 1, raw_at = 0\<rparr>,
      frameSize := 4\<rparr>"

definition bad_magic_streamer :: "raw_handle streamer" where
  "bad_magic_streamer = fresh_streamer
     \<lparr>bytesFile := \<lparr>b_bytes = [0, 1, 1, 2, 3, 4], b_pos = 2\<rparr>,
      bytesSoundFile := Some \<lparr>raw_channels = 1, raw_frames = 0, raw_at = 0\<rparr>,
      frameSize := 4\<rparr>"

definition beyond_end_streamer :: "raw_handle streamer" where
  "beyond_end_streamer = fresh_streamer
     \<lparr>bytesFile := \<lparr>b_bytes = [82, 1, 1, 2, 3, 4, 5, 6, 7, 8], b_pos = 2\<rparr>,
      bytesSoundFile := Some \<lparr>raw_channels = 1, raw_frames = 3, raw_at = 3\<rparr>,
      frameSize := 4\<rparr>"

subsection \<open>Invariants of a session\<close>

text \<open>
  Where the downloader's program point came from: \<open>download_pred to from h r\<close> holds if
  a step from \<open>from\<close>, taken with \<^verbatim>\<open>headerReadyEvent\<close> = \<open>h\<close> and
  \<^verbatim>\<open>soundFileReadyEvent\<close> = \<open>r\<close>, can lead to \<open>to\<close> (only the points of the handshake
  are constrained).
\<close>

fun download_pred :: "download_pc \<Rightarrow> download_pc \<Rightarrow> bool \<Rightarrow> bool \<Rightarrow> bool" where
  "download_pred D_recheck_header from h r = (from = D_wait_soundfile \<and> r)"
| "download_pred D_clear_soundfile from h r = (from = D_recheck_header \<and> \<not> h)"
| "download_pred D_lock from h r =
     (from = D_check_header \<and> \<not> h \<or> from = D_recheck_header \<and> h \<or> from = D_clear_soundfile)"
| "download_pred D_branch from h r = (from = D_lock)"
| "download_pred D_tell from h r = (from = D_branch \<and> h)"
| "download_pred D_seek_end from h r = (from = D_tell)"
| "download_pred D_write from h r = (from = D_seek_end)"
| "download_pred D_tell_end from h r = (from = D_write)"
| "download_pred D_seek_back from h r = (from = D_tell_end)"
| "download_pred D_compare from h r = (from = D_seek_back)"
| "download_pred D_set_block from h r = (from = D_compare)"
| "download_pred _ from h r = True"

text \<open>The handshake between the two events, as an invariant over the program points.\<close>

definition handshake_inv :: "'sf system \<Rightarrow> bool" where
  "handshake_inv s =
     ((main_at s = M_lock_header \<or> main_at s = M_open \<longrightarrow> headerReadyEvent (ev s))
    \<and> (download_at s = D_recheck_header \<longrightarrow> soundFileReadyEvent (ev s))
    \<and> (download_at s = D_clear_soundfile \<longrightarrow> \<not> headerReadyEvent (ev s))
    \<and> ((download_at s = D_lock \<or> download_at s = D_branch) \<and> headerReadyEvent (ev s)
          \<longrightarrow> soundFileReadyEvent (ev s))
    \<and> (download_at s = D_tell \<or> download_at s = D_seek_end \<or> download_at s = D_write
        \<or> download_at s = D_tell_end \<or> download_at s = D_seek_back
        \<or> download_at s = D_compare \<or> download_at s = D_set_block
          \<longrightarrow> soundFileReadyEvent (ev s)))"

text \<open>What holds throughout a session whose response has a failure status.\<close>

definition failed_status_inv :: "'sf system \<Rightarrow> bool" where
  "failed_status_inv s =
     (main_at s = M_wait_header
      \<and> (download_at s = D_raise_for_status \<or> download_at s = D_raised)
      \<and> \<not> status_ok s \<and> m_exc s = None \<and> out_stream s = NotOpened
      \<and> self s = fresh_streamer)"

text \<open>The program points of \<^verbatim>\<open>begin_streaming\<close> after the parser was constructed.\<close>

fun feeding :: "main_pc \<Rightarrow> bool" where
  "feeding M_wait_header = False"
| "feeding M_lock_header = False"
| "feeding M_open = False"
| "feeding M_except_seek = False"
| "feeding M_except_read = False"
| "feeding M_except_seek_again = False"
| "feeding M_except_clear = False"
| "feeding M_except_set = False"
| "feeding M_raised = False"
| "feeding _ = True"

text \<open>A library whose opened files have at least one channel.\<close>

definition opens_with_channels :: "'sf soundfile_lib \<Rightarrow> bool" where
  "opens_with_channels lib =
     (\<forall>bs p sf p'. sf_open lib bs p = (Inr sf, p') \<longrightarrow> 0 < sf_channels lib sf)"

text \<open>The latch of the playback-started callback and the blocks in the queue.\<close>

definition playback_start_inv :: "nat \<Rightarrow> 'sf system \<Rightarrow> bool" where
  "playback_start_inv B s =
     (onPlaybackStart_calls (self s) = (if playbackStartFired (ev s) then 1 else 0)
      \<and> (\<forall>x\<in>set (queue (self s)). x \<noteq> [])
      \<and> (main_at s = M_put \<longrightarrow> length (m_data s) = B * frameSize (self s))
      \<and> (feeding (main_at s) \<longrightarrow> 0 < frameSize (self s)))"

subsection \<open>The lock and the shared buffer\<close>

text \<open>
  The program points at which a thread is inside a \<^verbatim>\<open>with self._bytesLock\<close> block, or
  between \<^verbatim>\<open>acquire\<close> and \<^verbatim>\<open>release\<close>.
\<close>

fun download_holds_lock :: "download_pc \<Rightarrow> bool" where
  "download_holds_lock D_raise_for_status = False"
| "download_holds_lock D_next_chunk = False"
| "download_holds_lock D_check_header = False"
| "download_holds_lock D_wait_soundfile = False"
| "download_holds_lock D_recheck_header = False"
| "download_holds_lock D_clear_soundfile = False"
| "download_holds_lock D_lock = False"
| "download_holds_lock D_set_done = False"
| "download_holds_lock D_set_block_final = False"
| "download_holds_lock D_returned = False"
| "download_holds_lock D_raised = False"
| "download_holds_lock _ = True"

fun main_holds_lock :: "main_pc \<Rightarrow> bool" where
  "main_holds_lock M_open = True"
| "main_holds_lock M_set_ready = True"
| "main_holds_lock M_unlock_header = True"
| "main_holds_lock M_read = True"
| "main_holds_lock M_measure = True"
| "main_holds_lock M_check_remaining = True"
| "main_holds_lock M_clear_block = True"
| "main_holds_lock M_unlock_get = True"
| "main_holds_lock M_end_pos = True"
| "main_holds_lock M_end_check = True"
| "main_holds_lock M_end_put = True"
| "main_holds_lock M_critical = True"
| "main_holds_lock M_unlock_break = True"
| "main_holds_lock M_unlock_continue = True"
| "main_holds_lock _ = False"

text \<open>
  The program points of the downloader between taking a chunk from the response and
  writing it.
\<close>

fun chunk_in_hand :: "download_pc \<Rightarrow> bool" where
  "chunk_in_hand D_check_header = True"
| "chunk_in_hand D_wait_soundfile = True"
| "chunk_in_hand D_recheck_header = True"
| "chunk_in_hand D_clear_soundfile = True"
| "chunk_in_hand D_lock = True"
| "chunk_in_hand D_branch = True"
| "chunk_in_hand D_first_seek_end = True"
| "chunk_in_hand D_first_write = True"
| "chunk_in_hand D_tell = True"
| "chunk_in_hand D_seek_end = True"
| "chunk_in_hand D_write = True"
| "chunk_in_hand _ = False"

text \<open>
  Lines 483-485, the statements of the handler of a failed construction that move the
  cursor. The handler is outside the \<^verbatim>\<open>with\<close> block of line 476: it runs without the
  lock. \<open>unlocked_handler_step\<close> holds of such a statement executed while another thread
  holds the lock.
\<close>

fun handler_touches_buffer :: "main_pc \<Rightarrow> bool" where
  "handler_touches_buffer M_except_seek = True"
| "handler_touches_buffer M_except_read = True"
| "handler_touches_buffer M_except_seek_again = True"
| "handler_touches_buffer _ = False"

definition unlocked_handler_step :: "thread \<Rightarrow> 'sf system \<Rightarrow> bool" where
  "unlocked_handler_step t s =
     (t = MainThread \<and> handler_touches_buffer (main_at s) \<and> bytesLock s \<noteq> None)"

text \<open>
  The states a session reaches if no statement of lines 483-485 is executed while
  another thread holds the lock; every other interleaving of the three threads is
  allowed. \<open>run_schedule_locked\<close> runs a schedule and fails on such a statement.
\<close>

inductive reachable_locked ::
  "'sf soundfile_lib \<Rightarrow> nat \<Rightarrow> bool \<Rightarrow> byte list list \<Rightarrow> 'sf system \<Rightarrow> bool"
  for lib :: "'sf soundfile_lib" and playbackBlockSize :: nat and ok :: bool
    and chunks :: "byte list list" where
  locked_initial: "reachable_locked lib playbackBlockSize ok chunks (initial_system ok chunks)"
| locked_step:
    "reachable_locked lib playbackBlockSize ok chunks s \<Longrightarrow>
     \<not> unlocked_handler_step t s \<Longrightarrow>
     system_step lib playbackBlockSize t s = Some s' \<Longrightarrow>
     reachable_locked lib playbackBlockSize ok chunks s'"

fun run_schedule_locked ::
  "'sf soundfile_lib \<Rightarrow> nat \<Rightarrow> thread list \<Rightarrow> 'sf system \<Rightarrow> 'sf system option" where
  "run_schedule_locked lib playbackBlockSize [] s = Some s"
| "run_schedule_locked lib playbackBlockSize (t # ts) s =
     (if unlocked_handler_step t s then None
      else case system_step lib playbackBlockSize t s of
             None \<Rightarrow> None
           | Some s' \<Rightarrow> run_schedule_locked lib playbackBlockSize ts s')"

text \<open>
  The lock excludes, the downloader writes with the cursor at the logical end, and the
  buffer, the chunk in hand and the chunks still to come make up the response.
\<close>

definition buffer_inv :: "byte list list \<Rightarrow> 'sf system \<Rightarrow> bool" where
  "buffer_inv chunks s =
     ((download_holds_lock (download_at s) \<longrightarrow> bytesLock s = Some DownloadThread)
      \<and> (main_holds_lock (main_at s) \<longrightarrow> bytesLock s = Some MainThread)
      \<and> (download_at s = D_first_write \<or> download_at s = D_write \<longrightarrow>
            b_pos (bytesFile (self s)) = length (b_bytes (bytesFile (self s))))
      \<and> (download_at s = D_set_done \<or> download_at s = D_set_block_final
            \<or> download_at s = D_returned \<longrightarrow> pending s = [])
      \<and> b_bytes (bytesFile (self s))
           @ (if chunk_in_hand (download_at s) then d_chunk s else [])
           @ concat (pending s) = concat chunks)"

text \<open>
  The states that follow \<open>s0\<close> while the downloader has not left its critical section
  (it does not execute the release), under every interleaving with the other threads
  that executes no statement of lines 483-485 meanwhile. \<open>run_section\<close> runs a schedule
  within these bounds.
\<close>

inductive section_from ::
  "'sf soundfile_lib \<Rightarrow> nat \<Rightarrow> 'sf system \<Rightarrow> 'sf system \<Rightarrow> bool"
  for lib :: "'sf soundfile_lib" and playbackBlockSize :: nat and s0 :: "'sf system" where
  section_start: "section_from lib playbackBlockSize s0 s0"
| section_step:
    "section_from lib playbackBlockSize s0 s \<Longrightarrow>
     \<not> (t = DownloadThread \<and> download_at s = D_unlock) \<Longrightarrow>
     \<not> unlocked_handler_step t s \<Longrightarrow>
     system_step lib playbackBlockSize t s = Some s' \<Longrightarrow>
     section_from lib playbackBlockSize s0 s'"

fun run_section ::
  "'sf soundfile_lib \<Rightarrow> nat \<Rightarrow> thread list \<Rightarrow> 'sf system \<Rightarrow> 'sf system option" where
  "run_section lib playbackBlockSize [] s = Some s"
| "run_section lib playbackBlockSize (t # ts) s =
     (if t = DownloadThread \<and> download_at s = D_unlock then None
      else if unlocked_handler_step t s then None
      else case system_step lib playbackBlockSize t s of
             None \<Rightarrow> None
           | Some s' \<Rightarrow> run_section lib playbackBlockSize ts s')"

text \<open>
  The buffer at each program point of the downloader's critical section, entered at
  \<open>entry\<close> with the buffer \<open>f0\<close> and the chunk \<open>c\<close>.
\<close>

definition section_file ::
  "download_pc \<Rightarrow> download_pc \<Rightarrow> bytesio \<Rightarrow> byte list \<Rightarrow> bytesio \<Rightarrow> bool" where
  "section_file entry pc f0 c f =
     (if entry = D_tell then
        (if pc = D_tell \<or> pc = D_seek_end then f = f0
         else if pc = D_write then f = f0\<lparr>b_pos := length (b_bytes f0)\<rparr>
         else if pc = D_tell_end \<or> pc = D_seek_back
           then f = \<lparr>b_bytes = b_bytes f0 @ c, b_pos = length (b_bytes f0) + length c\<rparr>
         else if pc = D_compare \<or> pc = D_set_block \<or> pc = D_unlock
           then f = \<lparr>b_bytes = b_bytes f0 @ c, b_pos = b_pos f0\<rparr>
         else False)
      else if entry = D_first_seek_end then
        (if pc = D_first_seek_end then f = f0
         else if pc = D_first_write then f = f0\<lparr>b_pos := length (b_bytes f0)\<rparr>
         else if pc = D_first_seek_start
           then f = \<lparr>b_bytes = b_bytes f0 @ c, b_pos = length (b_bytes f0) + length c\<rparr>
         else if pc = D_first_set_header \<or> pc = D_unlock
           then f = \<lparr>b_bytes = b_bytes f0 @ c, b_pos = 0\<rparr>
         else False)
      else False)"

definition section_inv :: "'sf system \<Rightarrow> 'sf system \<Rightarrow> bool" where
  "section_inv s0 s =
     (bytesLock s = Some DownloadThread \<and> \<not> main_holds_lock (main_at s)
      \<and> d_chunk s = d_chunk s0
      \<and> section_file (download_at s0) (download_at s) (bytesFile (self s0)) (d_chunk s0)
           (bytesFile (self s))
      \<and> (download_at s = D_seek_end \<or> download_at s = D_write \<or> download_at s = D_tell_end
          \<or> download_at s = D_seek_back \<longrightarrow> d_lastReadPos s = b_pos (bytesFile (self s0))))"

text \<open>
  States of concrete runs: before and after the append of the block of
  \<open>sound_two_chunks\<close>, with an invocation of the playback callback in between; after the
  download of that response; before and after the append of the second header byte of
  \<open>split_header_chunks\<close>, while the main thread finishes the handler of the failed
  construction.
\<close>

definition before_append :: "raw_handle system" where
  "before_append =
     the (run_schedule_locked raw_lib 2
            (replicate 10 DownloadThread @ replicate 6 MainThread @ replicate 6 DownloadThread)
            (initial_system True sound_two_chunks))"

definition after_append :: "raw_handle system" where
  "after_append =
     the (run_section raw_lib 2
            (DownloadThread # CallbackThread # replicate 6 DownloadThread) before_append)"

definition download_returned :: "raw_handle system" where
  "download_returned =
     the (run_schedule_locked raw_lib 2
            (replicate 10 DownloadThread @ replicate 6 MainThread @ replicate 17 DownloadThread)
            (initial_system True sound_two_chunks))"

definition before_header_append :: "raw_handle system" where
  "before_header_append =
     the (run_schedule_locked raw_lib 2
            (replicate 10 DownloadThread @ replicate 7 MainThread @ replicate 4 DownloadThread)
            (initial_system True split_header_chunks))"

definition after_header_append :: "raw_handle system" where
  "after_header_append =
     the (run_section raw_lib 2
            [DownloadThread, MainThread, DownloadThread, DownloadThread, DownloadThread]
            before_header_append)"

section \<open>Properties\<close>

text \<open>The block the playback callback takes is the first one it does not pass over, and what it passes over is empty.\<close>

lemma pop_block_Inr_suffix:
  "pop_block done qs = (Inr readData, rest) \<Longrightarrow> \<exists>skipped. qs = skipped @ readData # rest \<and> (\<forall>x\<in>set skipped. x = [])"
proof (induction qs)
  case Nil
  then show ?case by simp
next
  case (Cons a qs)
  show ?case
  proof (cases "length a = 0 \<and> \<not> done")
    case True
    with Cons.prems have "pop_block done qs = (Inr readData, rest)" by simp
    from Cons.IH [OF this] obtain skipped where
      "qs = skipped @ readData # rest" "\<forall>x\<in>set skipped. x = []" by blast
    with True have "a # qs = (a # skipped) @ readData # rest \<and> (\<forall>x\<in>set (a # skipped). x = [])"
      by simp
    then show ?thesis by blast
  next
    case False
    with Cons.prems have "a = readData" "qs = rest" by (auto split: if_splits)
    then have "a # qs = [] @ readData # rest \<and> (\<forall>x\<in>set []. x = ([]::byte list))" by simp
    then show ?thesis by blast
  qed
qed

subsection \<open>The shared buffer\<close>

lemma write_at_end:
  "write_bytes bs (f\<lparr>b_pos := length (b_bytes f)\<rparr>)
     = \<lparr>b_bytes = b_bytes f @ bs, b_pos = length (b_bytes f) + length bs\<rparr>"
  by (cases "bs = []") (simp_all add: write_bytes_def Let_def)

lemma downloader_write_bytes:
  "b_bytes (bytesFile (stream_downloader_write B chunk st)) = b_bytes (bytesFile st) @ chunk"
  by (simp add: stream_downloader_write_def seek_end_def write_at_end tell_def seek_def Let_def)

lemma downloader_write_pos:
  "b_pos (bytesFile (stream_downloader_write B chunk st))
     = (if headerReadyEvent (events st) then b_pos (bytesFile st) else 0)"
  by (simp add: stream_downloader_write_def seek_end_def write_at_end tell_def seek_def Let_def)

lemma downloader_write_header:
  "headerReadyEvent (events (stream_downloader_write B chunk st))"
  by (simp add: stream_downloader_write_def seek_end_def write_at_end tell_def seek_def Let_def)

lemma handler_bytes:
  "b_bytes (bytesFile (soundfile_error_handler st)) = b_bytes (bytesFile st)"
  by (simp add: soundfile_error_handler_def read_all_def seek_def Let_def)

subsection \<open>The downloader's signal\<close>

text \<open>
  What the downloader's critical section does to \<^verbatim>\<open>blockDataAvailable\<close> when
  \<^verbatim>\<open>headerReadyEvent\<close> is set: it sets the event exactly when the logical end minus the
  read cursor, after the append, exceeds \<^verbatim>\<open>_playbackBlockSize\<close> itself.
\<close>

lemma downloader_block_available:
  assumes "headerReadyEvent (events st)"
  shows "blockDataAvailable (events (stream_downloader_write playbackBlockSize chunk st))
         = (blockDataAvailable (events st) \<or>
            int (length (b_bytes (bytesFile (stream_downloader_write playbackBlockSize chunk st))))
              - int (b_pos (bytesFile (stream_downloader_write playbackBlockSize chunk st)))
              > int playbackBlockSize)"
  using assms
  by (simp add: stream_downloader_write_def seek_end_def write_at_end tell_def seek_def Let_def)


subsection \<open>The feed loop\<close>

text \<open>
  C2. One iteration of the feed loop leaves the loop if and only if the block is not of
  the expected size, the read cursor is at the logical end and
  \<^verbatim>\<open>downloadDoneEvent\<close> is set; it then has queued the block if the block is not empty,
  and nothing otherwise.
\<close>

theorem feed_check_break:
  assumes "feed_check playbackBlockSize data st = (ctl, st')"
  shows "(ctl = Break \<longleftrightarrow>
            (length data \<noteq> playbackBlockSize * frameSize st
             \<and> b_pos (bytesFile st) = length (b_bytes (bytesFile st))
             \<and> downloadDoneEvent (events st)))
         \<and> (ctl = Break \<longrightarrow> queue st' = (if data \<noteq> [] then queue st @ [data] else queue st))"
  using assms
  by (auto simp add: feed_check_def seek_end_def tell_def seek_def Let_def split: if_splits)

theorem feed_check_break_witness:
  "feed_check 2 [7, 8]
     ((fresh_streamer :: unit streamer)
        \<lparr>bytesFile := \<lparr>b_bytes = [1, 2, 3], b_pos = 3\<rparr>, frameSize := 4,
         events := events_clear\<lparr>downloadDoneEvent := True\<rparr>\<rparr>)
   = (Break, (fresh_streamer :: unit streamer)
        \<lparr>queue := [[7, 8]], bytesFile := \<lparr>b_bytes = [1, 2, 3], b_pos = 3\<rparr>, frameSize := 4,
         events := events_clear\<lparr>downloadDoneEvent := True\<rparr>\<rparr>)
   \<and> queue ((fresh_streamer :: unit streamer)
        \<lparr>queue := [[7, 8]], bytesFile := \<lparr>b_bytes = [1, 2, 3], b_pos = 3\<rparr>, frameSize := 4,
         events := events_clear\<lparr>downloadDoneEvent := True\<rparr>\<rparr>) = [[7, 8]]"
proof -
  let ?st = "(fresh_streamer :: unit streamer)
        \<lparr>bytesFile := \<lparr>b_bytes = [1, 2, 3], b_pos = 3\<rparr>, frameSize := 4,
         events := events_clear\<lparr>downloadDoneEvent := True\<rparr>\<rparr>"
  have r: "feed_check 2 [7, 8] ?st = (Break, ?st\<lparr>queue := [[7, 8]]\<rparr>)"
    by (simp add: feed_check_def seek_end_def tell_def seek_def Let_def fresh_streamer_def
        events_clear_def)
  from feed_check_break [OF r] r show ?thesis
    by (simp add: fresh_streamer_def)
qed

text \<open>
  C3, as the code has it. When the block is not of the expected size and the cursor is
  not at the logical end or \<^verbatim>\<open>downloadDoneEvent\<close> is clear, the iteration logs one
  critical record and ends: nothing is queued, nothing is raised, the loop is not left,
  and the next iteration asks for data again.
\<close>

theorem feed_check_pacing_violation:
  assumes "length data \<noteq> playbackBlockSize * frameSize st"
    and "b_pos (bytesFile st) \<noteq> length (b_bytes (bytesFile st))
         \<or> \<not> downloadDoneEvent (events st)"
  shows "feed_check playbackBlockSize data st
           = (Continue, st\<lparr>critical_logs := critical_logs st + 1\<rparr>)"
  using assms
  by (auto simp add: feed_check_def seek_end_def tell_def seek_def Let_def)

theorem feed_check_pacing_violation_witness:
  "length [7 :: byte] \<noteq> 2 * frameSize ((fresh_streamer :: unit streamer)
        \<lparr>bytesFile := \<lparr>b_bytes = [1, 2, 3], b_pos = 1\<rparr>, frameSize := 4\<rparr>)
   \<and> feed_check 2 [7]
       ((fresh_streamer :: unit streamer)
          \<lparr>bytesFile := \<lparr>b_bytes = [1, 2, 3], b_pos = 1\<rparr>, frameSize := 4\<rparr>)
     = (Continue, (fresh_streamer :: unit streamer)
          \<lparr>bytesFile := \<lparr>b_bytes = [1, 2, 3], b_pos = 1\<rparr>, frameSize := 4,
           critical_logs := 1\<rparr>)"
proof -
  let ?st = "(fresh_streamer :: unit streamer)
          \<lparr>bytesFile := \<lparr>b_bytes = [1, 2, 3], b_pos = 1\<rparr>, frameSize := 4\<rparr>"
  have a: "length [7 :: byte] \<noteq> 2 * frameSize ?st" by simp
  have b: "b_pos (bytesFile ?st) \<noteq> length (b_bytes (bytesFile ?st))
           \<or> \<not> downloadDoneEvent (events ?st)" by simp
  from feed_check_pacing_violation [OF a b] a show ?thesis
    by (simp add: fresh_streamer_def)
qed

text \<open>
  A short block with the cursor in the middle of the buffer and the download not over:
  the iteration does not abort, it continues the loop.
\<close>

theorem feed_check_no_abort_counterexample:
  "fst (feed_check 2 [7]
         ((fresh_streamer :: unit streamer)
            \<lparr>bytesFile := \<lparr>b_bytes = [1, 2, 3], b_pos = 1\<rparr>, frameSize := 4\<rparr>)) = Continue"
  by (simp add: feed_check_def seek_end_def tell_def seek_def Let_def fresh_streamer_def
      events_clear_def)

subsection \<open>The playback callback\<close>

text \<open>
  C9. When the block taken off the queue has length \<open>L\<close> with \<open>0 < L < B\<close>, \<open>B\<close> the
  length of the output buffer, the callback fills the output buffer with the block
  followed by \<open>B - L\<close> zero bytes.
\<close>

theorem playback_short_block_padding:
  assumes "frames = playbackBlockSize"
    and "pop_block (downloadDoneEvent (events st)) (queue st) = (Inr readData, rest)"
    and "0 < length readData" and "length readData < length outdata"
  shows "fst (stream_playback_callback playbackBlockSize outdata frames st)
           = Inr (readData @ replicate (length outdata - length readData) 0)"
  using assms
  by (simp add: stream_playback_callback_def fill_outdata_def set_slice_def Let_def min_def)

theorem playback_short_block_padding_witness:
  "pop_block (downloadDoneEvent (events ((fresh_streamer :: unit streamer)\<lparr>queue := [[1, 2, 3]]\<rparr>)))
      (queue ((fresh_streamer :: unit streamer)\<lparr>queue := [[1, 2, 3]]\<rparr>)) = (Inr [1, 2, 3], [])
   \<and> fst (stream_playback_callback 2 [9, 9, 9, 9, 9, 9, 9, 9] 2
          ((fresh_streamer :: unit streamer)\<lparr>queue := [[1, 2, 3]]\<rparr>))
     = Inr [1, 2, 3, 0, 0, 0, 0, 0]"
proof -
  let ?st = "(fresh_streamer :: unit streamer)\<lparr>queue := [[1, 2, 3]]\<rparr>"
  have p: "pop_block (downloadDoneEvent (events ?st)) (queue ?st) = (Inr [1, 2, 3], [])"
    by simp
  have f: "(2::nat) = 2" by simp
  from playback_short_block_padding [OF f p, of "[9, 9, 9, 9, 9, 9, 9, 9]"] p
  show ?thesis by (simp add: numeral_eq_Suc)
qed

subsection \<open>Reading a block through the parser\<close>

lemma get_data_locked_result:
  "fst (get_data_locked lib B st)
     = (case fst (soundFile_read_and_fix lib (int B) st) of
          Inl e \<Rightarrow> if e = AssertionError then Inr [] else Inl e
        | Inr d \<Rightarrow> Inr d)"
  by (cases "soundFile_read_and_fix lib (int B) st")
     (auto simp: get_data_locked_def seek_end_def tell_def Let_def split: sum.splits exc.splits)

lemma get_data_locked_state:
  "snd (get_data_locked lib B st)
     = (let st1 = snd (soundFile_read_and_fix lib (int B) st)
        in if (\<exists>e. fst (soundFile_read_and_fix lib (int B) st) = Inl e \<and> e \<noteq> AssertionError)
           then st1
           else if int (length (b_bytes (bytesFile st1))) - int (b_pos (bytesFile st1)) < int B
                   \<and> \<not> downloadDoneEvent (events st1)
                then st1\<lparr>events := (events st1)\<lparr>blockDataAvailable := False\<rparr>\<rparr>
                else st1)"
  by (cases "soundFile_read_and_fix lib (int B) st")
     (auto simp: get_data_locked_def seek_end_def tell_def seek_def Let_def
        split: sum.splits exc.splits)

text \<open>
  C8, as the code has it. Let the first \<^verbatim>\<open>buffer_read\<close> return \<open>readData\<close>.
  \<^item> If it is not short, or the cursor is at the logical end, \<open>readData\<close> is the result
    and no parser is created.
  \<^item> If it is short and the cursor is not at the logical end, a fresh parser is opened
    from the start of the buffer and moved to the frame offset before the read (the
    stale handle's position minus the frames just read). An exception of either call
    leaves the function. If the fresh parser reports strictly more frames than the stale
    handle, it replaces the handle and the result is that of one more \<^verbatim>\<open>buffer_read\<close>;
    otherwise the stale handle stays and \<open>readData\<close>, short as it is, is the result.
  \<^item> An exception of the first \<^verbatim>\<open>buffer_read\<close> leaves the function.
  \<^verbatim>\<open>_get_data_from_download_thread\<close> returns the block it gets; it replaces
  \<^verbatim>\<open>AssertionError\<close>, and no other exception, by an empty block, and lets every other
  exception pass to the feed loop. After a block or an \<^verbatim>\<open>AssertionError\<close> it clears
  \<^verbatim>\<open>blockDataAvailable\<close> if fewer than \<^verbatim>\<open>_playbackBlockSize\<close> bytes remain and the
  download is not over.
\<close>

theorem read_block_result:
  "(bytesSoundFile st = Some sf0 \<longrightarrow>
      (sf_buffer_read lib sf0 dataToRead (b_bytes (bytesFile st)) (b_pos (bytesFile st))
         = (Inl e, sf1, p1) \<longrightarrow>
       soundFile_read_and_fix lib dataToRead st
         = (Inl e, st\<lparr>bytesSoundFile := Some sf1, bytesFile := seek p1 (bytesFile st)\<rparr>))
    \<and> (sf_buffer_read lib sf0 dataToRead (b_bytes (bytesFile st)) (b_pos (bytesFile st))
         = (Inr readData, sf1, p1) \<longrightarrow>
        (\<not> int (length readData) < dataToRead * int (frameSize st)
            \<or> p1 = length (b_bytes (bytesFile st)) \<longrightarrow>
          soundFile_read_and_fix lib dataToRead st
            = (Inr readData, st\<lparr>bytesSoundFile := Some sf1, bytesFile := seek p1 (bytesFile st)\<rparr>))
      \<and> (int (length readData) < dataToRead * int (frameSize st)
            \<and> p1 \<noteq> length (b_bytes (bytesFile st)) \<longrightarrow>
           (sf_open lib (b_bytes (bytesFile st)) 0 = (Inl e1, p4) \<longrightarrow>
              soundFile_read_and_fix lib dataToRead st
                = (Inl e1, st\<lparr>bytesSoundFile := Some sf1, bytesFile := seek p4 (bytesFile st)\<rparr>))
         \<and> (sf_open lib (b_bytes (bytesFile st)) 0 = (Inr newSF, p4) \<longrightarrow>
              (sf_seek lib newSF (sf_tell lib sf1 - int (length readData div frameSize st))
                  (b_bytes (bytesFile st)) p4 = (Inl e2, newSF1, p5) \<longrightarrow>
                 soundFile_read_and_fix lib dataToRead st
                   = (Inl e2, st\<lparr>bytesSoundFile := Some sf1,
                                   bytesFile := seek p5 (bytesFile st)\<rparr>))
            \<and> (sf_seek lib newSF (sf_tell lib sf1 - int (length readData div frameSize st))
                  (b_bytes (bytesFile st)) p4 = (Inr u, newSF1, p5) \<longrightarrow>
                 soundFile_read_and_fix lib dataToRead st
                   = (if sf_frames lib newSF1 > sf_frames lib sf1
                      then (case sf_buffer_read lib newSF1 dataToRead (b_bytes (bytesFile st)) p5 of
                              (r, newSF2, p6) \<Rightarrow>
                                (r, st\<lparr>bytesSoundFile := Some newSF2,
                                        bytesFile := seek p6 (bytesFile st)\<rparr>))
                      else (Inr readData,
                            st\<lparr>bytesSoundFile := Some sf1,
                               bytesFile := seek p5 (bytesFile st)\<rparr>)))))))
   \<and> fst (get_data_locked lib playbackBlockSize st')
       = (case fst (soundFile_read_and_fix lib (int playbackBlockSize) st') of
            Inl x \<Rightarrow> if x = AssertionError then Inr [] else Inl x
          | Inr d \<Rightarrow> Inr d)
   \<and> snd (get_data_locked lib playbackBlockSize st')
       = (let st1 = snd (soundFile_read_and_fix lib (int playbackBlockSize) st')
          in if (\<exists>x. fst (soundFile_read_and_fix lib (int playbackBlockSize) st') = Inl x
                     \<and> x \<noteq> AssertionError)
             then st1
             else if int (length (b_bytes (bytesFile st1))) - int (b_pos (bytesFile st1))
                       < int playbackBlockSize
                     \<and> \<not> downloadDoneEvent (events st1)
                  then st1\<lparr>events := (events st1)\<lparr>blockDataAvailable := False\<rparr>\<rparr>
                  else st1)"
proof -
  have a: "bytesSoundFile st = Some sf0 \<Longrightarrow>
      sf_buffer_read lib sf0 dataToRead (b_bytes (bytesFile st)) (b_pos (bytesFile st))
         = (Inl e, sf1, p1) \<Longrightarrow>
       soundFile_read_and_fix lib dataToRead st
         = (Inl e, st\<lparr>bytesSoundFile := Some sf1, bytesFile := seek p1 (bytesFile st)\<rparr>)"
    by (simp add: soundFile_read_and_fix_def)
  have b1: "bytesSoundFile st = Some sf0 \<Longrightarrow>
      sf_buffer_read lib sf0 dataToRead (b_bytes (bytesFile st)) (b_pos (bytesFile st))
         = (Inr readData, sf1, p1) \<Longrightarrow>
      \<not> int (length readData) < dataToRead * int (frameSize st)
            \<or> p1 = length (b_bytes (bytesFile st)) \<Longrightarrow>
          soundFile_read_and_fix lib dataToRead st
            = (Inr readData, st\<lparr>bytesSoundFile := Some sf1, bytesFile := seek p1 (bytesFile st)\<rparr>)"
    by (auto simp: soundFile_read_and_fix_def seek_end_def seek_def tell_def Let_def)
  have b2: "bytesSoundFile st = Some sf0 \<Longrightarrow>
      sf_buffer_read lib sf0 dataToRead (b_bytes (bytesFile st)) (b_pos (bytesFile st))
         = (Inr readData, sf1, p1) \<Longrightarrow>
      int (length readData) < dataToRead * int (frameSize st) \<Longrightarrow>
      p1 \<noteq> length (b_bytes (bytesFile st)) \<Longrightarrow>
      sf_open lib (b_bytes (bytesFile st)) 0 = (Inl e1, p4) \<Longrightarrow>
              soundFile_read_and_fix lib dataToRead st
                = (Inl e1, st\<lparr>bytesSoundFile := Some sf1, bytesFile := seek p4 (bytesFile st)\<rparr>)"
    by (simp add: soundFile_read_and_fix_def seek_end_def seek_def tell_def Let_def)
  have b3: "bytesSoundFile st = Some sf0 \<Longrightarrow>
      sf_buffer_read lib sf0 dataToRead (b_bytes (bytesFile st)) (b_pos (bytesFile st))
         = (Inr readData, sf1, p1) \<Longrightarrow>
      int (length readData) < dataToRead * int (frameSize st) \<Longrightarrow>
      p1 \<noteq> length (b_bytes (bytesFile st)) \<Longrightarrow>
      sf_open lib (b_bytes (bytesFile st)) 0 = (Inr newSF, p4) \<Longrightarrow>
      sf_seek lib newSF (sf_tell lib sf1 - int (length readData div frameSize st))
                  (b_bytes (bytesFile st)) p4 = (Inl e2, newSF1, p5) \<Longrightarrow>
                 soundFile_read_and_fix lib dataToRead st
                   = (Inl e2, st\<lparr>bytesSoundFile := Some sf1,
                                   bytesFile := seek p5 (bytesFile st)\<rparr>)"
    by (simp add: soundFile_read_and_fix_def seek_end_def seek_def tell_def Let_def)
  have b4: "bytesSoundFile st = Some sf0 \<Longrightarrow>
      sf_buffer_read lib sf0 dataToRead (b_bytes (bytesFile st)) (b_pos (bytesFile st))
         = (Inr readData, sf1, p1) \<Longrightarrow>
      int (length readData) < dataToRead * int (frameSize st) \<Longrightarrow>
      p1 \<noteq> length (b_bytes (bytesFile st)) \<Longrightarrow>
      sf_open lib (b_bytes (bytesFile st)) 0 = (Inr newSF, p4) \<Longrightarrow>
      sf_seek lib newSF (sf_tell lib sf1 - int (length readData div frameSize st))
                  (b_bytes (bytesFile st)) p4 = (Inr u, newSF1, p5) \<Longrightarrow>
                 soundFile_read_and_fix lib dataToRead st
                   = (if sf_frames lib newSF1 > sf_frames lib sf1
                      then (case sf_buffer_read lib newSF1 dataToRead (b_bytes (bytesFile st)) p5 of
                              (r, newSF2, p6) \<Rightarrow>
                                (r, st\<lparr>bytesSoundFile := Some newSF2,
                                        bytesFile := seek p6 (bytesFile st)\<rparr>))
                      else (Inr readData,
                            st\<lparr>bytesSoundFile := Some sf1,
                               bytesFile := seek p5 (bytesFile st)\<rparr>))"
    by (auto simp: soundFile_read_and_fix_def seek_end_def seek_def tell_def Let_def
        split: prod.splits)
  from a b1 b2 b3 b4 get_data_locked_result [of lib playbackBlockSize st']
    get_data_locked_state [of lib playbackBlockSize st']
  show ?thesis by blast
qed

text \<open>
  Instances, one for each case: a stale handle that is replaced, with the retried read;
  a short read that stays unresolved and is returned as it is; a full block; a first
  read that raises \<^verbatim>\<open>AssertionError\<close>, which becomes the empty block; a fresh parser that
  cannot be opened and one that cannot be moved, whose \<^verbatim>\<open>LibsndfileError\<close> is passed on.
\<close>

theorem read_block_result_witness:
  "soundFile_read_and_fix raw_lib 2 stale_streamer
     = (Inr [1, 2, 3, 4, 5, 6, 7, 8],
        stale_streamer\<lparr>bytesSoundFile := Some \<lparr>raw_channels = 1, raw_frames = 2, raw_at = 2\<rparr>,
                        bytesFile := seek 10 (bytesFile stale_streamer)\<rparr>)
   \<and> soundFile_read_and_fix raw_lib 2 short_streamer
     = (Inr [1, 2, 3, 4],
        short_streamer\<lparr>bytesSoundFile := Some \<lparr>raw_channels = 1, raw_frames = 1, raw_at = 1\<rparr>,
                        bytesFile := seek 2 (bytesFile short_streamer)\<rparr>)
   \<and> soundFile_read_and_fix raw_lib 2
       (stale_streamer\<lparr>bytesSoundFile := Some \<lparr>raw_channels = 1, raw_frames = 2, raw_at = 0\<rparr>\<rparr>)
     = (Inr [1, 2, 3, 4, 5, 6, 7, 8],
        stale_streamer\<lparr>bytesSoundFile := Some \<lparr>raw_channels = 1, raw_frames = 2, raw_at = 2\<rparr>,
                        bytesFile := seek 10 (bytesFile stale_streamer)\<rparr>)
   \<and> soundFile_read_and_fix raw_lib 2 overcounting_streamer
     = (Inl AssertionError,
        overcounting_streamer
          \<lparr>bytesSoundFile := Some \<lparr>raw_channels = 1, raw_frames = 2, raw_at = 1\<rparr>,
           bytesFile := seek 6 (bytesFile overcounting_streamer)\<rparr>)
   \<and> soundFile_read_and_fix raw_lib 2 bad_magic_streamer
     = (Inl LibsndfileError,
        bad_magic_streamer
          \<lparr>bytesSoundFile := Some \<lparr>raw_channels = 1, raw_frames = 0, raw_at = 0\<rparr>,
           bytesFile := seek 2 (bytesFile bad_magic_streamer)\<rparr>)
   \<and> soundFile_read_and_fix raw_lib 2 beyond_end_streamer
     = (Inl LibsndfileError,
        beyond_end_streamer
          \<lparr>bytesSoundFile := Some \<lparr>raw_channels = 1, raw_frames = 3, raw_at = 3\<rparr>,
           bytesFile := seek 2 (bytesFile beyond_end_streamer)\<rparr>)
   \<and> fst (get_data_locked raw_lib 2 overcounting_streamer) = Inr []
   \<and> fst (get_data_locked raw_lib 2 short_streamer) = Inr [1, 2, 3, 4]
   \<and> fst (get_data_locked raw_lib 2 bad_magic_streamer) = Inl LibsndfileError"
proof -
  let ?h0 = "\<lparr>raw_channels = 1, raw_frames = 0, raw_at = 0\<rparr>"
  let ?h1 = "\<lparr>raw_channels = 1, raw_frames = 1, raw_at = 0\<rparr>"
  let ?h11 = "\<lparr>raw_channels = 1, raw_frames = 1, raw_at = 1\<rparr>"
  let ?h2 = "\<lparr>raw_channels = 1, raw_frames = 2, raw_at = 0\<rparr>"
  let ?h21 = "\<lparr>raw_channels = 1, raw_frames = 2, raw_at = 1\<rparr>"
  let ?h22 = "\<lparr>raw_channels = 1, raw_frames = 2, raw_at = 2\<rparr>"
  let ?h33 = "\<lparr>raw_channels = 1, raw_frames = 3, raw_at = 3\<rparr>"
  let ?cur = "stale_streamer\<lparr>bytesSoundFile := Some ?h2\<rparr>"
  \<comment> \<open>the stale handle is replaced\<close>
  have s1: "bytesSoundFile stale_streamer = Some ?h0" by (simp add: stale_streamer_def)
  have s2: "sf_buffer_read raw_lib ?h0 2 (b_bytes (bytesFile stale_streamer))
              (b_pos (bytesFile stale_streamer)) = (Inr [], ?h0, 2)" by code_simp
  have s3: "int (length ([] :: byte list)) < 2 * int (frameSize stale_streamer)"
    by (simp add: stale_streamer_def)
  have s4: "(2::nat) \<noteq> length (b_bytes (bytesFile stale_streamer))"
    by (simp add: stale_streamer_def)
  have s5: "sf_open raw_lib (b_bytes (bytesFile stale_streamer)) 0 = (Inr ?h2, 2)" by code_simp
  have s6: "sf_seek raw_lib ?h2 (sf_tell raw_lib ?h0
              - int (length ([] :: byte list) div frameSize stale_streamer))
              (b_bytes (bytesFile stale_streamer)) 2 = (Inr (), ?h2, 2)" by code_simp
  have s7: "sf_frames raw_lib ?h2 > sf_frames raw_lib ?h0" by code_simp
  have s8: "sf_buffer_read raw_lib ?h2 2 (b_bytes (bytesFile stale_streamer)) 2
              = (Inr [1, 2, 3, 4, 5, 6, 7, 8], ?h22, 10)" by code_simp
  from read_block_result [where st = stale_streamer and ?sf0.0 = ?h0 and lib = raw_lib
      and dataToRead = 2 and readData = "[]" and ?sf1.0 = ?h0 and ?p1.0 = 2 and newSF = ?h2
      and ?p4.0 = 2 and ?newSF1.0 = ?h2 and ?p5.0 = 2 and u = "()"]
    s1 s2 s3 s4 s5 s6 s7 s8
  have r1: "soundFile_read_and_fix raw_lib 2 stale_streamer
     = (Inr [1, 2, 3, 4, 5, 6, 7, 8],
        stale_streamer\<lparr>bytesSoundFile := Some ?h22,
                        bytesFile := seek 10 (bytesFile stale_streamer)\<rparr>)"
    by simp
  \<comment> \<open>the handle stays and the short block is returned\<close>
  have t1: "bytesSoundFile short_streamer = Some ?h1" by (simp add: short_streamer_def)
  have t2: "sf_buffer_read raw_lib ?h1 2 (b_bytes (bytesFile short_streamer))
              (b_pos (bytesFile short_streamer)) = (Inr [1, 2, 3, 4], ?h11, 6)" by code_simp
  have t3: "int (length [1, 2, 3, 4 :: byte]) < 2 * int (frameSize short_streamer)"
    by (simp add: short_streamer_def)
  have t4: "(6::nat) \<noteq> length (b_bytes (bytesFile short_streamer))"
    by (simp add: short_streamer_def)
  have t5: "sf_open raw_lib (b_bytes (bytesFile short_streamer)) 0 = (Inr ?h1, 2)" by code_simp
  have t6: "sf_seek raw_lib ?h1 (sf_tell raw_lib ?h11
              - int (length [1, 2, 3, 4 :: byte] div frameSize short_streamer))
              (b_bytes (bytesFile short_streamer)) 2 = (Inr (), ?h1, 2)" by code_simp
  have t7: "\<not> sf_frames raw_lib ?h1 > sf_frames raw_lib ?h11" by code_simp
  from read_block_result [where st = short_streamer and ?sf0.0 = ?h1 and lib = raw_lib
      and dataToRead = 2 and readData = "[1, 2, 3, 4]" and ?sf1.0 = ?h11 and ?p1.0 = 6
      and newSF = ?h1 and ?p4.0 = 2 and ?newSF1.0 = ?h1 and ?p5.0 = 2 and u = "()"
      and playbackBlockSize = 2 and st' = short_streamer]
    t1 t2 t3 t4 t5 t6 t7
  have r2: "soundFile_read_and_fix raw_lib 2 short_streamer
     = (Inr [1, 2, 3, 4],
        short_streamer\<lparr>bytesSoundFile := Some ?h11,
                        bytesFile := seek 2 (bytesFile short_streamer)\<rparr>)"
    and g2: "fst (get_data_locked raw_lib 2 short_streamer)
       = (case fst (soundFile_read_and_fix raw_lib (int 2) short_streamer) of
            Inl x \<Rightarrow> if x = AssertionError then Inr [] else Inl x
          | Inr d \<Rightarrow> Inr d)"
    by simp_all
  \<comment> \<open>a full block\<close>
  have u1: "bytesSoundFile ?cur = Some ?h2" by simp
  have u2: "sf_buffer_read raw_lib ?h2 2 (b_bytes (bytesFile ?cur)) (b_pos (bytesFile ?cur))
              = (Inr [1, 2, 3, 4, 5, 6, 7, 8], ?h22, 10)" by code_simp
  have u3: "\<not> int (length [1, 2, 3, 4, 5, 6, 7, 8 :: byte]) < 2 * int (frameSize ?cur)"
    by (simp add: stale_streamer_def)
  from read_block_result [where st = ?cur and ?sf0.0 = ?h2 and lib = raw_lib
      and dataToRead = 2 and readData = "[1, 2, 3, 4, 5, 6, 7, 8]" and ?sf1.0 = ?h22 and ?p1.0 = 10]
    u1 u2 u3
  have r3: "soundFile_read_and_fix raw_lib 2 ?cur
     = (Inr [1, 2, 3, 4, 5, 6, 7, 8],
        stale_streamer\<lparr>bytesSoundFile := Some ?h22,
                        bytesFile := seek 10 (bytesFile stale_streamer)\<rparr>)"
    by simp
  \<comment> \<open>the first read raises\<close>
  have v1: "bytesSoundFile overcounting_streamer = Some ?h2"
    by (simp add: overcounting_streamer_def)
  have v2: "sf_buffer_read raw_lib ?h2 2 (b_bytes (bytesFile overcounting_streamer))
              (b_pos (bytesFile overcounting_streamer)) = (Inl AssertionError, ?h21, 6)"
    by code_simp
  from read_block_result [where st = overcounting_streamer and ?sf0.0 = ?h2 and lib = raw_lib
      and dataToRead = 2 and e = AssertionError and ?sf1.0 = ?h21 and ?p1.0 = 6
      and playbackBlockSize = 2 and st' = overcounting_streamer]
    v1 v2
  have r4: "soundFile_read_and_fix raw_lib 2 overcounting_streamer
     = (Inl AssertionError,
        overcounting_streamer\<lparr>bytesSoundFile := Some ?h21,
           bytesFile := seek 6 (bytesFile overcounting_streamer)\<rparr>)"
    and g4: "fst (get_data_locked raw_lib 2 overcounting_streamer)
       = (case fst (soundFile_read_and_fix raw_lib (int 2) overcounting_streamer) of
            Inl x \<Rightarrow> if x = AssertionError then Inr [] else Inl x
          | Inr d \<Rightarrow> Inr d)"
    by simp_all
  \<comment> \<open>the fresh parser cannot be opened\<close>
  have w1: "bytesSoundFile bad_magic_streamer = Some ?h0" by (simp add: bad_magic_streamer_def)
  have w2: "sf_buffer_read raw_lib ?h0 2 (b_bytes (bytesFile bad_magic_streamer))
              (b_pos (bytesFile bad_magic_streamer)) = (Inr [], ?h0, 2)" by code_simp
  have w3: "int (length ([] :: byte list)) < 2 * int (frameSize bad_magic_streamer)"
    by (simp add: bad_magic_streamer_def)
  have w4: "(2::nat) \<noteq> length (b_bytes (bytesFile bad_magic_streamer))"
    by (simp add: bad_magic_streamer_def)
  have w5: "sf_open raw_lib (b_bytes (bytesFile bad_magic_streamer)) 0
              = (Inl LibsndfileError, 2)" by code_simp
  from read_block_result [where st = bad_magic_streamer and ?sf0.0 = ?h0 and lib = raw_lib
      and dataToRead = 2 and readData = "[]" and ?sf1.0 = ?h0 and ?p1.0 = 2
      and ?e1.0 = LibsndfileError and ?p4.0 = 2
      and playbackBlockSize = 2 and st' = bad_magic_streamer]
    w1 w2 w3 w4 w5
  have r5: "soundFile_read_and_fix raw_lib 2 bad_magic_streamer
     = (Inl LibsndfileError,
        bad_magic_streamer\<lparr>bytesSoundFile := Some ?h0,
           bytesFile := seek 2 (bytesFile bad_magic_streamer)\<rparr>)"
    and g5: "fst (get_data_locked raw_lib 2 bad_magic_streamer)
       = (case fst (soundFile_read_and_fix raw_lib (int 2) bad_magic_streamer) of
            Inl x \<Rightarrow> if x = AssertionError then Inr [] else Inl x
          | Inr d \<Rightarrow> Inr d)"
    by simp_all
  \<comment> \<open>the fresh parser cannot be moved\<close>
  have x1: "bytesSoundFile beyond_end_streamer = Some ?h33"
    by (simp add: beyond_end_streamer_def)
  have x2: "sf_buffer_read raw_lib ?h33 2 (b_bytes (bytesFile beyond_end_streamer))
              (b_pos (bytesFile beyond_end_streamer)) = (Inr [], ?h33, 2)" by code_simp
  have x3: "int (length ([] :: byte list)) < 2 * int (frameSize beyond_end_streamer)"
    by (simp add: beyond_end_streamer_def)
  have x4: "(2::nat) \<noteq> length (b_bytes (bytesFile beyond_end_streamer))"
    by (simp add: beyond_end_streamer_def)
  have x5: "sf_open raw_lib (b_bytes (bytesFile beyond_end_streamer)) 0 = (Inr ?h2, 2)"
    by code_simp
  have x6: "sf_seek raw_lib ?h2 (sf_tell raw_lib ?h33
              - int (length ([] :: byte list) div frameSize beyond_end_streamer))
              (b_bytes (bytesFile beyond_end_streamer)) 2 = (Inl LibsndfileError, ?h2, 2)"
    by code_simp
  from read_block_result [where st = beyond_end_streamer and ?sf0.0 = ?h33 and lib = raw_lib
      and dataToRead = 2 and readData = "[]" and ?sf1.0 = ?h33 and ?p1.0 = 2
      and newSF = ?h2 and ?p4.0 = 2 and ?e2.0 = LibsndfileError and ?newSF1.0 = ?h2 and ?p5.0 = 2]
    x1 x2 x3 x4 x5 x6
  have r6: "soundFile_read_and_fix raw_lib 2 beyond_end_streamer
     = (Inl LibsndfileError,
        beyond_end_streamer\<lparr>bytesSoundFile := Some ?h33,
           bytesFile := seek 2 (bytesFile beyond_end_streamer)\<rparr>)"
    by simp
  from g2 r2 have h2: "fst (get_data_locked raw_lib 2 short_streamer) = Inr [1, 2, 3, 4]"
    by simp
  from g4 r4 have h4: "fst (get_data_locked raw_lib 2 overcounting_streamer) = Inr []"
    by simp
  from g5 r5 have h5: "fst (get_data_locked raw_lib 2 bad_magic_streamer) = Inl LibsndfileError"
    by simp
  from r1 r2 r3 r4 r5 r6 h2 h4 h5 show ?thesis by blast
qed

text \<open>
  An unresolved mismatch does not give an empty block. In the session below the buffer
  holds one frame and the first half of the next when the feed loop reads a block of two
  frames: the read is short, the cursor is not at the logical end, the fresh parser
  reports no more frames than the handle, and \<^verbatim>\<open>_get_data_from_download_thread\<close>
  returns the one frame.
\<close>

theorem unresolved_short_read_counterexample:
  "(case run_schedule raw_lib 2
           (replicate 10 DownloadThread @ replicate 6 MainThread @ replicate 14 DownloadThread
            @ replicate 2 MainThread)
           (initial_system True partial_frame_chunks) of
      None \<Rightarrow> False
    | Some s \<Rightarrow>
        main_at s = M_read
        \<and> bytesFile (self s) = \<lparr>b_bytes = [82, 1, 1, 2, 3, 4, 5, 6], b_pos = 2\<rparr>
        \<and> bytesSoundFile (self s) = Some \<lparr>raw_channels = 1, raw_frames = 1, raw_at = 0\<rparr>
        \<and> frameSize (self s) = 4
        \<and> sf_buffer_read raw_lib \<lparr>raw_channels = 1, raw_frames = 1, raw_at = 0\<rparr> 2
             [82, 1, 1, 2, 3, 4, 5, 6] 2
            = (Inr [1, 2, 3, 4], \<lparr>raw_channels = 1, raw_frames = 1, raw_at = 1\<rparr>, 6)
        \<and> sf_open raw_lib [82, 1, 1, 2, 3, 4, 5, 6] 0
            = (Inr \<lparr>raw_channels = 1, raw_frames = 1, raw_at = 0\<rparr>, 2)
        \<and> get_data_locked raw_lib 2 (self s)
            = (Inr [1, 2, 3, 4],
               (self s)\<lparr>bytesSoundFile := Some \<lparr>raw_channels = 1, raw_frames = 1, raw_at = 1\<rparr>\<rparr>)
        \<and> (case run_schedule raw_lib 2 [MainThread] s of
             None \<Rightarrow> False
           | Some s' \<Rightarrow> main_at s' = M_measure \<and> m_data s' = [1, 2, 3, 4]))"
  by code_simp

subsection \<open>Steps of the three threads\<close>

lemma read_and_fix_events [simp]:
  "events (snd (soundFile_read_and_fix lib n st)) = events st"
  by (simp add: soundFile_read_and_fix_def seek_end_def Let_def
      split: option.splits prod.splits sum.splits)

lemma read_and_fix_frame [simp]:
  "queue (snd (soundFile_read_and_fix lib n st)) = queue st"
  "frameSize (snd (soundFile_read_and_fix lib n st)) = frameSize st"
  "onPlaybackStart_calls (snd (soundFile_read_and_fix lib n st)) = onPlaybackStart_calls st"
  by (simp_all add: soundFile_read_and_fix_def seek_end_def Let_def
      split: option.splits prod.splits sum.splits)

lemma read_and_fix_keeps:
  assumes "soundFile_read_and_fix lib n st = (r, st')"
  shows "events st' = events st" and "queue st' = queue st"
    and "frameSize st' = frameSize st"
    and "onPlaybackStart_calls st' = onPlaybackStart_calls st"
  using read_and_fix_events [of lib n st] read_and_fix_frame [of lib n st] assms
  by simp_all

lemma ev_simps [simp]:
  "ev (s\<lparr>main_at := a\<rparr>) = ev s"
  "ev (s\<lparr>download_at := b\<rparr>) = ev s"
  "ev (s\<lparr>bytesLock := c\<rparr>) = ev s"
  "ev (s\<lparr>out_stream := d\<rparr>) = ev s"
  "ev (s\<lparr>m_data := e\<rparr>) = ev s"
  "ev (s\<lparr>m_remainingBytes := f\<rparr>) = ev s"
  "ev (s\<lparr>m_curPos := g\<rparr>) = ev s"
  "ev (s\<lparr>m_endPos := h\<rparr>) = ev s"
  "ev (s\<lparr>m_exc := i\<rparr>) = ev s"
  "ev (s\<lparr>played := j\<rparr>) = ev s"
  "ev (s\<lparr>d_chunk := k\<rparr>) = ev s"
  "ev (s\<lparr>pending := l\<rparr>) = ev s"
  "ev (s\<lparr>d_lastReadPos := m\<rparr>) = ev s"
  "ev (s\<lparr>d_endPos := n\<rparr>) = ev s"
  "ev (on_file ff s) = ev s"
  "ev (on_events fe s) = fe (ev s)"
  "ev (s\<lparr>self := st\<rparr>) = events st"
  by (simp_all add: ev_def on_file_def on_events_def)

lemma on_simps [simp]:
  "main_at (on_file ff s) = main_at s"
  "main_at (on_events fe s) = main_at s"
  "download_at (on_file ff s) = download_at s"
  "download_at (on_events fe s) = download_at s"
  by (simp_all add: on_file_def on_events_def)

lemma opens_with_channelsD:
  "opens_with_channels lib \<Longrightarrow> sf_open lib bs p = (Inr sf, p') \<Longrightarrow> 0 < sf_channels lib sf"
  unfolding opens_with_channels_def by blast

lemma main_step_header:
  "main_step lib B s = Some s' \<Longrightarrow>
     headerReadyEvent (ev s') = (main_at s \<noteq> M_except_clear \<and> headerReadyEvent (ev s))"
  apply (cases "main_at s")
  apply (simp_all add: main_step_def ev_def on_file_def on_events_def Let_def
        sizeof_defaultDType_def split: if_splits prod.splits sum.splits)
  apply (auto simp: read_and_fix_keeps dest: opens_with_channelsD)
  done

lemma main_step_soundfile:
  "main_step lib B s = Some s' \<Longrightarrow>
     soundFileReadyEvent (ev s')
       = (main_at s = M_set_ready \<or> main_at s = M_except_set \<or> soundFileReadyEvent (ev s))"
  apply (cases "main_at s")
  apply (simp_all add: main_step_def ev_def on_file_def on_events_def Let_def
        sizeof_defaultDType_def split: if_splits prod.splits sum.splits)
  apply (auto simp: read_and_fix_keeps dest: opens_with_channelsD)
  done

lemma main_step_download_at:
  "main_step lib B s = Some s' \<Longrightarrow> download_at s' = download_at s"
  apply (cases "main_at s")
  apply (simp_all add: main_step_def ev_def on_file_def on_events_def Let_def
        sizeof_defaultDType_def split: if_splits prod.splits sum.splits)
  apply (auto simp: read_and_fix_keeps dest: opens_with_channelsD)
  done

lemma main_step_to_lock_header:
  "main_step lib B s = Some s' \<Longrightarrow> main_at s' = M_lock_header \<Longrightarrow>
     main_at s = M_wait_header \<and> headerReadyEvent (ev s)"
  apply (cases "main_at s")
  apply (simp_all add: main_step_def ev_def on_file_def on_events_def Let_def
        sizeof_defaultDType_def split: if_splits prod.splits sum.splits)
  apply (auto simp: read_and_fix_keeps dest: opens_with_channelsD)
  done

lemma main_step_to_open:
  "main_step lib B s = Some s' \<Longrightarrow> main_at s' = M_open \<Longrightarrow> main_at s = M_lock_header"
  apply (cases "main_at s")
  apply (simp_all add: main_step_def ev_def on_file_def on_events_def Let_def
        sizeof_defaultDType_def split: if_splits prod.splits sum.splits)
  apply (auto simp: read_and_fix_keeps dest: opens_with_channelsD)
  done

lemma main_step_start_calls:
  "main_step lib B s = Some s' \<Longrightarrow>
     onPlaybackStart_calls (self s') = onPlaybackStart_calls (self s)"
  apply (cases "main_at s")
  apply (simp_all add: main_step_def ev_def on_file_def on_events_def Let_def
        sizeof_defaultDType_def split: if_splits prod.splits sum.splits)
  apply (auto simp: read_and_fix_keeps dest: opens_with_channelsD)
  done

lemma main_step_start_fired:
  "main_step lib B s = Some s' \<Longrightarrow> playbackStartFired (ev s') = playbackStartFired (ev s)"
  apply (cases "main_at s")
  apply (simp_all add: main_step_def ev_def on_file_def on_events_def Let_def
        sizeof_defaultDType_def split: if_splits prod.splits sum.splits)
  apply (auto simp: read_and_fix_keeps dest: opens_with_channelsD)
  done

lemma main_step_queue:
  "main_step lib B s = Some s' \<Longrightarrow>
     queue (self s') = (if main_at s = M_put \<or> main_at s = M_end_put \<and> m_data s \<noteq> []
                        then queue (self s) @ [m_data s] else queue (self s))"
  apply (cases "main_at s")
  apply (simp_all add: main_step_def ev_def on_file_def on_events_def Let_def
        sizeof_defaultDType_def split: if_splits prod.splits sum.splits)
  apply (auto simp: read_and_fix_keeps dest: opens_with_channelsD)
  done

lemma main_step_to_put:
  "main_step lib B s = Some s' \<Longrightarrow> main_at s' = M_put \<Longrightarrow>
     length (m_data s') = B * frameSize (self s')"
  apply (cases "main_at s")
  apply (simp_all add: main_step_def Let_def on_file_def on_events_def
        split: if_splits prod.splits sum.splits)
  apply auto
  done

lemma main_step_frameSize:
  "opens_with_channels lib \<Longrightarrow> main_step lib B s = Some s' \<Longrightarrow> feeding (main_at s') \<Longrightarrow>
     (feeding (main_at s) \<longrightarrow> 0 < frameSize (self s)) \<Longrightarrow> 0 < frameSize (self s')"
  apply (cases "main_at s")
  apply (simp_all add: main_step_def ev_def on_file_def on_events_def Let_def
        sizeof_defaultDType_def split: if_splits prod.splits sum.splits)
  apply (auto simp: read_and_fix_keeps dest: opens_with_channelsD)
  done

lemma download_step_header:
  "download_step B s = Some s' \<Longrightarrow>
     headerReadyEvent (ev s') = (download_at s = D_first_set_header \<or> headerReadyEvent (ev s))"
  apply (cases "download_at s")
  apply (simp_all add: download_step_def ev_def on_file_def on_events_def
        split: if_splits list.splits)
  apply auto
  done

lemma download_step_soundfile:
  "download_step B s = Some s' \<Longrightarrow>
     soundFileReadyEvent (ev s')
       = (download_at s \<noteq> D_clear_soundfile \<and> soundFileReadyEvent (ev s))"
  apply (cases "download_at s")
  apply (simp_all add: download_step_def ev_def on_file_def on_events_def
        split: if_splits list.splits)
  apply auto
  done

lemma download_step_main_at:
  "download_step B s = Some s' \<Longrightarrow> main_at s' = main_at s"
  apply (cases "download_at s")
  apply (simp_all add: download_step_def ev_def on_file_def on_events_def
        split: if_splits list.splits)
  apply auto
  done

lemma download_step_pred:
  "download_step B s = Some s' \<Longrightarrow>
     download_pred (download_at s') (download_at s)
       (headerReadyEvent (ev s)) (soundFileReadyEvent (ev s))"
  apply (cases "download_at s")
  apply (simp_all add: download_step_def ev_def on_file_def on_events_def
        split: if_splits list.splits)
  apply auto
  done

lemma download_step_self:
  "download_step B s = Some s' \<Longrightarrow>
     onPlaybackStart_calls (self s') = onPlaybackStart_calls (self s)
     \<and> playbackStartFired (ev s') = playbackStartFired (ev s)
     \<and> queue (self s') = queue (self s) \<and> frameSize (self s') = frameSize (self s)
     \<and> m_data s' = m_data s"
  apply (cases "download_at s")
  apply (simp_all add: download_step_def ev_def on_file_def on_events_def
        split: if_splits list.splits)
  apply auto
  done

lemma pop_block_subset:
  "pop_block done qs = (r, rest) \<Longrightarrow> set rest \<subseteq> set qs \<and> (\<forall>d. r = Inr d \<longrightarrow> d \<in> set qs)"
  by (induction qs) (auto split: if_splits)

lemma pop_block_member:
  "pop_block done qs = (Inr d, rest) \<Longrightarrow> d \<in> set qs"
  using pop_block_subset by blast

lemma fill_outdata_snd:
  "snd (fill_outdata d outdata st)
     = (if d = [] then st\<lparr>bytesFile := snd (seek_end (bytesFile st))\<rparr> else st)"
  by (cases "d = []")
     (simp_all add: fill_outdata_def seek_end_def Let_def split: sum.splits)

lemma playback_callback_snd:
  "snd (stream_playback_callback B outdata B st)
     = (case pop_block (downloadDoneEvent (events st)) (queue st) of
          (Inl e, rest) \<Rightarrow> st\<lparr>queue := rest\<rparr>
        | (Inr d, rest) \<Rightarrow>
            (if d = []
             then (fire_playback_start (st\<lparr>queue := rest\<rparr>))
                    \<lparr>bytesFile := snd (seek_end (bytesFile st))\<rparr>
             else fire_playback_start (st\<lparr>queue := rest\<rparr>)))"
  by (simp add: stream_playback_callback_def fill_outdata_snd fire_playback_start_def
      split: prod.splits sum.splits)

lemma callback_step_cases:
  assumes "callback_step B s = Some s'"
  obtains st where "st = snd (stream_playback_callback B
                       (replicate (B * frameSize (self s)) 0) B (self s))"
    and "self s' = st \<or> self s' = st\<lparr>events := (events st)\<lparr>playbackFinishedEvent := True\<rparr>\<rparr>"
    and "main_at s' = main_at s" and "m_data s' = m_data s" and "download_at s' = download_at s"
  using assms
  by (auto simp: callback_step_def split: if_splits prod.splits sum.splits)

lemma callback_step_frame:
  assumes "callback_step B s = Some s'"
  shows "main_at s' = main_at s \<and> download_at s' = download_at s
     \<and> headerReadyEvent (ev s') = headerReadyEvent (ev s)
     \<and> soundFileReadyEvent (ev s') = soundFileReadyEvent (ev s)"
proof -
  from assms obtain st where st: "st = snd (stream_playback_callback B
                       (replicate (B * frameSize (self s)) 0) B (self s))"
    and s': "self s' = st \<or> self s' = st\<lparr>events := (events st)\<lparr>playbackFinishedEvent := True\<rparr>\<rparr>"
    and m: "main_at s' = main_at s" "download_at s' = download_at s"
    by (rule callback_step_cases)
  obtain r rest where p: "pop_block (downloadDoneEvent (events (self s))) (queue (self s)) = (r, rest)"
    by fastforce
  have "headerReadyEvent (events st) = headerReadyEvent (events (self s))
      \<and> soundFileReadyEvent (events st) = soundFileReadyEvent (events (self s))"
    unfolding st playback_callback_snd p
    by (cases r) (simp_all add: fire_playback_start_def)
  with s' m show ?thesis by (auto simp: ev_def)
qed

lemma callback_step_self:
  assumes "callback_step B s = Some s'"
  shows "main_at s' = main_at s \<and> m_data s' = m_data s \<and> frameSize (self s') = frameSize (self s)
     \<and> set (queue (self s')) \<subseteq> set (queue (self s))"
proof -
  from assms obtain st where st: "st = snd (stream_playback_callback B
                       (replicate (B * frameSize (self s)) 0) B (self s))"
    and s': "self s' = st \<or> self s' = st\<lparr>events := (events st)\<lparr>playbackFinishedEvent := True\<rparr>\<rparr>"
    and m: "main_at s' = main_at s" "m_data s' = m_data s"
    by (rule callback_step_cases)
  obtain r rest where p: "pop_block (downloadDoneEvent (events (self s))) (queue (self s)) = (r, rest)"
    by fastforce
  from pop_block_subset [OF p] have sub: "set rest \<subseteq> set (queue (self s))" by simp
  have "frameSize st = frameSize (self s) \<and> queue st = rest"
    unfolding st playback_callback_snd p
    by (cases r) (simp_all add: fire_playback_start_def)
  with s' m sub show ?thesis by auto
qed

lemma callback_step_fires:
  assumes "callback_step B s = Some s'"
  shows "onPlaybackStart_calls (self s')
       = onPlaybackStart_calls (self s)
         + (if \<not> playbackStartFired (ev s)
               \<and> (\<exists>d rest. pop_block (downloadDoneEvent (ev s)) (queue (self s)) = (Inr d, rest))
            then 1 else 0)
     \<and> playbackStartFired (ev s')
         = (playbackStartFired (ev s)
            \<or> (\<exists>d rest. pop_block (downloadDoneEvent (ev s)) (queue (self s)) = (Inr d, rest)))"
proof -
  from assms obtain st where st: "st = snd (stream_playback_callback B
                       (replicate (B * frameSize (self s)) 0) B (self s))"
    and s': "self s' = st \<or> self s' = st\<lparr>events := (events st)\<lparr>playbackFinishedEvent := True\<rparr>\<rparr>"
    by (rule callback_step_cases)
  obtain r rest where p: "pop_block (downloadDoneEvent (events (self s))) (queue (self s)) = (r, rest)"
    by fastforce
  have "onPlaybackStart_calls st
          = onPlaybackStart_calls (self s)
            + (if \<not> playbackStartFired (events (self s)) \<and> (\<exists>d. r = Inr d) then 1 else 0)
        \<and> playbackStartFired (events st)
            = (playbackStartFired (events (self s)) \<or> (\<exists>d. r = Inr d))"
    unfolding st playback_callback_snd p
    by (cases r) (simp_all add: fire_playback_start_def)
  with s' p show ?thesis by (auto simp: ev_def)
qed

lemma run_schedule_reachable:
  "reachable lib B ok chunks s \<Longrightarrow> run_schedule lib B ts s = Some s' \<Longrightarrow>
     reachable lib B ok chunks s'"
proof (induction ts arbitrary: s)
  case Nil
  then show ?case by simp
next
  case (Cons t ts)
  then show ?case
    by (auto split: option.splits intro: reachable_step)
qed

lemma reachable_run:
  assumes "run_schedule lib B ts (initial_system ok chunks) \<noteq> None"
  shows "reachable lib B ok chunks (the (run_schedule lib B ts (initial_system ok chunks)))"
proof -
  from assms have "run_schedule lib B ts (initial_system ok chunks)
      = Some (the (run_schedule lib B ts (initial_system ok chunks)))" by simp
  from run_schedule_reachable [OF reachable_initial this] show ?thesis .
qed

lemma raw_lib_opens_with_channels: "opens_with_channels raw_lib"
  by (auto simp: opens_with_channels_def raw_lib_def raw_open_def unat_gt_0
      split: list.splits if_splits)

subsection \<open>The sequential functions are the uninterrupted runs of the steps\<close>

text \<open>
  The critical section of the downloader, \<^verbatim>\<open>_get_data_from_download_thread\<close> and one
  iteration's check of the feed loop were given twice: as one function each, and as the
  steps of a thread. A thread that takes its steps without another thread in between
  does what the function does.
\<close>

lemma run_schedule_append:
  "run_schedule lib B (xs @ ys) s
     = (case run_schedule lib B xs s of None \<Rightarrow> None | Some s' \<Rightarrow> run_schedule lib B ys s')"
  by (induction xs arbitrary: s) (simp_all split: option.splits)

lemma downloader_section_steps:
  assumes "download_at s = D_branch"
  shows "\<exists>n s'. run_schedule lib B (replicate n DownloadThread) s = Some s'
           \<and> download_at s' = D_unlock
           \<and> self s' = stream_downloader_write B (d_chunk s) (self s)
           \<and> main_at s' = main_at s \<and> bytesLock s' = bytesLock s"
proof (cases "headerReadyEvent (ev s)")
  case False
  with assms have "run_schedule lib B (replicate 5 DownloadThread) s
      = Some (s\<lparr>self := stream_downloader_write B (d_chunk s) (self s), download_at := D_unlock\<rparr>)"
    by (simp add: numeral_eq_Suc system_step_def download_step_def on_file_def on_events_def
        stream_downloader_write_def seek_end_def Let_def ev_def)
  then show ?thesis by (intro exI [of _ 5] exI conjI) (assumption, simp_all)
next
  case True
  show ?thesis
  proof (cases "int (length (b_bytes (bytesFile (self s))) + length (d_chunk s))
                  - int (b_pos (bytesFile (self s))) > int B")
    case big: True
    with True assms have "run_schedule lib B (replicate 8 DownloadThread) s
      = Some (s\<lparr>self := stream_downloader_write B (d_chunk s) (self s),
               d_lastReadPos := b_pos (bytesFile (self s)),
               d_endPos := length (b_bytes (bytesFile (self s))) + length (d_chunk s),
               download_at := D_unlock\<rparr>)"
      by (simp add: numeral_eq_Suc system_step_def download_step_def on_file_def on_events_def
          stream_downloader_write_def seek_end_def write_at_end tell_def seek_def Let_def ev_def)
    then show ?thesis by (intro exI [of _ 8] exI conjI) (assumption, simp_all)
  next
    case small: False
    with True assms have "run_schedule lib B (replicate 7 DownloadThread) s
      = Some (s\<lparr>self := stream_downloader_write B (d_chunk s) (self s),
               d_lastReadPos := b_pos (bytesFile (self s)),
               d_endPos := length (b_bytes (bytesFile (self s))) + length (d_chunk s),
               download_at := D_unlock\<rparr>)"
      by (simp add: numeral_eq_Suc system_step_def download_step_def on_file_def on_events_def
          stream_downloader_write_def seek_end_def write_at_end tell_def seek_def Let_def ev_def)
    then show ?thesis by (intro exI [of _ 7] exI conjI) (assumption, simp_all)
  qed
qed

lemma feed_check_steps:
  assumes "main_at s = M_compare" and "bytesLock s = None"
  shows "\<exists>n s'. run_schedule lib B (replicate n MainThread) s = Some s'
           \<and> self s' = snd (feed_check B (m_data s) (self s))
           \<and> main_at s' = (if fst (feed_check B (m_data s) (self s)) = Break
                            then M_wait_finished else M_wait_block)
           \<and> bytesLock s' = None"
proof (cases "length (m_data s) = B * frameSize (self s)")
  case True
  with assms have "run_schedule lib B (replicate 2 MainThread) s
      = Some (s\<lparr>self := snd (feed_check B (m_data s) (self s)), main_at := M_wait_block\<rparr>)"
    by (simp add: numeral_eq_Suc system_step_def main_step_def feed_check_def)
  moreover have "fst (feed_check B (m_data s) (self s)) = Continue"
    using True by (simp add: feed_check_def)
  ultimately show ?thesis using assms(2)
    by (intro exI [of _ 2] exI conjI) (assumption, simp_all)
next
  case False
  let ?c = "b_pos (bytesFile (self s)) = length (b_bytes (bytesFile (self s)))
              \<and> downloadDoneEvent (ev s)"
  from False assms have "run_schedule lib B (replicate 6 MainThread) s
      = Some (s\<lparr>self := snd (feed_check B (m_data s) (self s)),
               m_curPos := b_pos (bytesFile (self s)),
               m_endPos := length (b_bytes (bytesFile (self s))),
               main_at := (if ?c then M_wait_finished else M_wait_block)\<rparr>)"
    by (simp add: numeral_eq_Suc system_step_def main_step_def feed_check_def on_file_def
        seek_end_def tell_def seek_def Let_def ev_def)
  moreover have "(fst (feed_check B (m_data s) (self s)) = Break) = ?c"
    using False by (auto simp: feed_check_def seek_end_def tell_def seek_def Let_def ev_def)
  ultimately show ?thesis using assms(2)
    by (intro exI [of _ 6] exI conjI) (assumption, simp_all)
qed

lemma get_data_steps:
  assumes "main_at s = M_lock_get" and "bytesLock s = None"
    and r: "get_data_locked lib B (self s) = (Inr d, st')"
  shows "\<exists>n s'. run_schedule lib B (replicate n MainThread) s = Some s'
           \<and> self s' = st' \<and> m_data s' = d \<and> main_at s' = M_compare \<and> bytesLock s' = None"
proof -
  obtain x st1 where rf: "soundFile_read_and_fix lib (int B) (self s) = (x, st1)"
    by fastforce
  from r rf have x: "x = Inr d \<or> x = Inl AssertionError \<and> d = []"
    by (auto simp: get_data_locked_def seek_end_def tell_def Let_def
        split: sum.splits exc.splits if_splits)
  let ?rem = "int (length (b_bytes (bytesFile st1))) - int (b_pos (bytesFile st1))"
  let ?clear = "?rem < int B \<and> \<not> downloadDoneEvent (events st1)"
  let ?mid = "s\<lparr>bytesLock := Some MainThread, self := st1, m_data := d,
               m_remainingBytes := ?rem, main_at := M_check_remaining\<rparr>"
  have st': "st' = (if ?clear then st1\<lparr>events := (events st1)\<lparr>blockDataAvailable := False\<rparr>\<rparr>
                    else st1)"
    using r rf x
    by (auto simp: get_data_locked_def seek_end_def tell_def seek_def Let_def split: if_splits)
  have three: "run_schedule lib B (replicate 3 MainThread) s = Some ?mid"
    using assms(1,2) rf x
    by (auto simp: numeral_eq_Suc system_step_def main_step_def on_file_def seek_end_def
        tell_def seek_def Let_def)
  show ?thesis
  proof (cases ?clear)
    case True
    have "run_schedule lib B (replicate 3 MainThread) ?mid
      = Some (?mid\<lparr>self := st', bytesLock := None, main_at := M_compare\<rparr>)"
      using True st'
      by (simp add: numeral_eq_Suc system_step_def main_step_def on_events_def ev_def)
    with three have "run_schedule lib B (replicate 3 MainThread @ replicate 3 MainThread) s
      = Some (?mid\<lparr>self := st', bytesLock := None, main_at := M_compare\<rparr>)"
      by (simp add: run_schedule_append)
    then have "run_schedule lib B (replicate 6 MainThread) s
      = Some (?mid\<lparr>self := st', bytesLock := None, main_at := M_compare\<rparr>)"
      by (simp add: replicate_add [symmetric])
    then show ?thesis by (intro exI [of _ 6] exI conjI) (assumption, simp_all)
  next
    case False
    have "run_schedule lib B (replicate 2 MainThread) ?mid
      = Some (?mid\<lparr>self := st', bytesLock := None, main_at := M_compare\<rparr>)"
      using False st'
      by (auto simp add: numeral_eq_Suc system_step_def main_step_def on_events_def ev_def)
    with three have "run_schedule lib B (replicate 3 MainThread @ replicate 2 MainThread) s
      = Some (?mid\<lparr>self := st', bytesLock := None, main_at := M_compare\<rparr>)"
      by (simp add: run_schedule_append)
    then have "run_schedule lib B (replicate 5 MainThread) s
      = Some (?mid\<lparr>self := st', bytesLock := None, main_at := M_compare\<rparr>)"
      by (simp add: replicate_add [symmetric])
    then show ?thesis by (intro exI [of _ 5] exI conjI) (assumption, simp_all)
  qed
qed

subsection \<open>The shared buffer under the lock\<close>

text \<open>
  The steps of the threads keep \<open>buffer_inv\<close> and, inside a critical section of the
  downloader, \<open>section_inv\<close>, as long as no statement of lines 483-485 is executed while
  another thread holds the lock.
\<close>

lemma read_and_fix_bytes [simp]:
  "b_bytes (bytesFile (snd (soundFile_read_and_fix lib n st))) = b_bytes (bytesFile st)"
  by (simp add: soundFile_read_and_fix_def seek_end_def seek_def Let_def
      split: option.splits prod.splits sum.splits)

lemma read_and_fix_keeps_bytes:
  "soundFile_read_and_fix lib n st = (r, st') \<Longrightarrow> b_bytes (bytesFile st') = b_bytes (bytesFile st)"
  using read_and_fix_bytes [of lib n st] by simp

lemma main_step_bytes:
  "main_step lib B s = Some s' \<Longrightarrow>
     b_bytes (bytesFile (self s')) = b_bytes (bytesFile (self s))"
  apply (cases "main_at s")
  apply (simp_all add: main_step_def ev_def on_file_def on_events_def Let_def seek_def
        seek_end_def read_all_def tell_def split: if_splits prod.splits sum.splits)
  apply (auto simp: read_and_fix_keeps_bytes)
  done

lemma main_step_download_locals:
  "main_step lib B s = Some s' \<Longrightarrow>
     pending s' = pending s \<and> d_chunk s' = d_chunk s \<and> d_lastReadPos s' = d_lastReadPos s"
  apply (cases "main_at s")
  apply (simp_all add: main_step_def ev_def on_file_def on_events_def Let_def
        split: if_splits prod.splits sum.splits)
  apply auto
  done

lemma main_step_mutex:
  "main_step lib B s = Some s' \<Longrightarrow>
     (main_holds_lock (main_at s) \<longrightarrow> bytesLock s = Some MainThread) \<Longrightarrow>
     (main_holds_lock (main_at s') \<longrightarrow> bytesLock s' = Some MainThread)
     \<and> (bytesLock s \<noteq> None \<and> bytesLock s \<noteq> Some MainThread \<longrightarrow> bytesLock s' = bytesLock s)"
  apply (cases "main_at s")
  apply (simp_all add: main_step_def ev_def on_file_def on_events_def Let_def
        split: if_splits prod.splits sum.splits)
  apply auto
  done

lemma main_step_outside_lock:
  "main_step lib B s = Some s' \<Longrightarrow> \<not> main_holds_lock (main_at s) \<Longrightarrow>
     \<not> handler_touches_buffer (main_at s) \<Longrightarrow>
     bytesFile (self s') = bytesFile (self s)"
  apply (cases "main_at s")
  apply (simp_all add: main_step_def ev_def on_file_def on_events_def Let_def
        split: if_splits prod.splits sum.splits)
  apply auto
  done

lemma main_step_at_outside_lock:
  "main_step lib B s = Some s' \<Longrightarrow> bytesLock s = Some DownloadThread \<Longrightarrow>
     \<not> main_holds_lock (main_at s) \<Longrightarrow>
     \<not> main_holds_lock (main_at s') \<and> bytesLock s' = bytesLock s"
  apply (cases "main_at s")
  apply (simp_all add: main_step_def ev_def on_file_def on_events_def Let_def
        split: if_splits prod.splits sum.splits)
  apply auto
  done

lemma write_bytes_at_end:
  "b_pos f = length (b_bytes f) \<Longrightarrow>
     write_bytes c f = \<lparr>b_bytes = b_bytes f @ c, b_pos = length (b_bytes f) + length c\<rparr>"
  by (cases "c = []") (simp_all add: write_bytes_def Let_def)

lemma download_step_buffer_inv:
  "buffer_inv chunks s \<Longrightarrow> download_step B s = Some s' \<Longrightarrow> buffer_inv chunks s'"
  apply (cases "download_at s")
  apply (simp_all add: buffer_inv_def download_step_def ev_def on_file_def on_events_def
        seek_end_def seek_def tell_def write_bytes_at_end split: if_splits list.splits)
  apply auto
  done

lemma callback_step_file:
  assumes "callback_step B s = Some s'"
  shows "b_bytes (bytesFile (self s')) = b_bytes (bytesFile (self s))
       \<and> (bytesLock s \<noteq> None \<longrightarrow> bytesFile (self s') = bytesFile (self s))
       \<and> bytesLock s' = bytesLock s \<and> pending s' = pending s \<and> d_chunk s' = d_chunk s
       \<and> d_lastReadPos s' = d_lastReadPos s"
proof -
  let ?out = "replicate (B * frameSize (self s)) 0"
  obtain r rest where p: "pop_block (downloadDoneEvent (events (self s))) (queue (self s)) = (r, rest)"
    by fastforce
  have bytes: "b_bytes (bytesFile (snd (stream_playback_callback B ?out B (self s))))
                 = b_bytes (bytesFile (self s))"
    unfolding playback_callback_snd p
    by (cases r) (simp_all add: fire_playback_start_def seek_end_def)
  have same: "r \<noteq> Inr [] \<Longrightarrow> bytesFile (snd (stream_playback_callback B ?out B (self s)))
                 = bytesFile (self s)"
    unfolding playback_callback_snd p
    by (cases r) (simp_all add: fire_playback_start_def)
  have guard: "bytesLock s \<noteq> None \<Longrightarrow> r \<noteq> Inr []"
    using assms p by (auto simp: callback_step_def ev_def split: if_splits)
  from assms bytes same guard show ?thesis
    by (auto simp: callback_step_def split: if_splits prod.splits sum.splits)
qed

lemma main_step_buffer_inv:
  assumes inv: "buffer_inv chunks s" and st: "main_step lib B s = Some s'"
    and nr: "\<not> unlocked_handler_step MainThread s"
  shows "buffer_inv chunks s'"
proof -
  note d = main_step_download_at [OF st] main_step_download_locals [OF st] main_step_bytes [OF st]
  from inv have mm: "main_holds_lock (main_at s) \<longrightarrow> bytesLock s = Some MainThread"
    and md: "download_holds_lock (download_at s) \<longrightarrow> bytesLock s = Some DownloadThread"
    by (simp_all add: buffer_inv_def)
  note mx = main_step_mutex [OF st mm]
  show ?thesis
  proof (cases "bytesLock s = Some DownloadThread")
    case True
    with mm have nh: "\<not> main_holds_lock (main_at s)" by auto
    from True nr have nt: "\<not> handler_touches_buffer (main_at s)"
      by (simp add: unlocked_handler_step_def)
    from main_step_outside_lock [OF st nh nt] main_step_at_outside_lock [OF st True nh] True
    have "bytesFile (self s') = bytesFile (self s)" "\<not> main_holds_lock (main_at s')"
      "bytesLock s' = Some DownloadThread" by simp_all
    with inv d True show ?thesis unfolding buffer_inv_def
      by (cases "chunk_in_hand (download_at s)") simp_all
  next
    case False
    with md have "\<not> download_holds_lock (download_at s)" by auto
    then have "download_at s \<noteq> D_first_write" "download_at s \<noteq> D_write" by auto
    with inv d mx \<open>\<not> download_holds_lock (download_at s)\<close> show ?thesis
      unfolding buffer_inv_def
      by (cases "chunk_in_hand (download_at s)") simp_all
  qed
qed

lemma callback_step_buffer_inv:
  assumes inv: "buffer_inv chunks s" and st: "callback_step B s = Some s'"
  shows "buffer_inv chunks s'"
proof -
  note f = callback_step_file [OF st] callback_step_frame [OF st]
  from inv have md: "download_holds_lock (download_at s) \<longrightarrow> bytesLock s = Some DownloadThread"
    by (simp add: buffer_inv_def)
  have "download_at s = D_first_write \<or> download_at s = D_write \<longrightarrow>
          bytesFile (self s') = bytesFile (self s)"
    using md f by auto
  with inv f show ?thesis unfolding buffer_inv_def
    by (cases "chunk_in_hand (download_at s)") simp_all
qed

lemma buffer_inv_initial: "buffer_inv chunks (initial_system ok chunks)"
  by (simp add: buffer_inv_def initial_system_def fresh_streamer_def BytesIO_def)

lemma buffer_inv_reachable:
  "reachable_locked lib B ok chunks s \<Longrightarrow> buffer_inv chunks s"
proof (induction rule: reachable_locked.induct)
  case locked_initial
  show ?case by (rule buffer_inv_initial)
next
  case (locked_step s t s')
  then show ?case
    by (cases t)
       (auto simp: system_step_def
          intro: main_step_buffer_inv download_step_buffer_inv callback_step_buffer_inv)
qed

lemma section_inv_download:
  "section_inv s0 s \<Longrightarrow> download_at s \<noteq> D_unlock \<Longrightarrow> download_step B s = Some s' \<Longrightarrow>
     section_inv s0 s'"
  apply (cases "download_at s")
  apply (simp_all add: section_inv_def section_file_def download_step_def ev_def on_file_def
        on_events_def seek_end_def seek_def tell_def write_bytes_at_end
        split: if_splits list.splits)
  apply (auto simp: write_bytes_at_end)
  done

lemma section_inv_main:
  assumes inv: "section_inv s0 s" and st: "main_step lib B s = Some s'"
    and nr: "\<not> unlocked_handler_step MainThread s"
  shows "section_inv s0 s'"
proof -
  from inv have l: "bytesLock s = Some DownloadThread" and nh: "\<not> main_holds_lock (main_at s)"
    by (simp_all add: section_inv_def)
  from l nr have nt: "\<not> handler_touches_buffer (main_at s)"
    by (simp add: unlocked_handler_step_def)
  from main_step_outside_lock [OF st nh nt] main_step_at_outside_lock [OF st l nh]
    main_step_download_at [OF st] main_step_download_locals [OF st] inv l
  show ?thesis by (simp add: section_inv_def)
qed

lemma section_inv_callback:
  assumes inv: "section_inv s0 s" and st: "callback_step B s = Some s'"
  shows "section_inv s0 s'"
proof -
  from inv have l: "bytesLock s \<noteq> None" by (simp add: section_inv_def)
  from callback_step_file [OF st] callback_step_frame [OF st] inv l
  show ?thesis by (simp add: section_inv_def)
qed

lemma section_inv_from:
  "section_from lib B s0 s \<Longrightarrow> section_inv s0 s0 \<Longrightarrow> section_inv s0 s"
proof (induction rule: section_from.induct)
  case section_start
  then show ?case .
next
  case (section_step s t s')
  then show ?case
    by (cases t)
       (auto simp: system_step_def
          intro: section_inv_main section_inv_download section_inv_callback)
qed

lemma section_inv_start:
  assumes "buffer_inv chunks s0"
    and "download_at s0 = D_tell \<or> download_at s0 = D_first_seek_end"
  shows "section_inv s0 s0"
proof -
  from assms have l: "bytesLock s0 = Some DownloadThread"
    by (auto simp: buffer_inv_def)
  with assms(1) have "\<not> main_holds_lock (main_at s0)"
    by (auto simp: buffer_inv_def)
  with l assms(2) show ?thesis
    by (auto simp: section_inv_def section_file_def)
qed

lemma section_result:
  assumes "reachable_locked lib B ok chunks s0"
    and "download_at s0 = D_tell \<or> download_at s0 = D_first_seek_end"
    and "section_from lib B s0 s" and "download_at s = D_unlock"
  shows "bytesFile (self s)
           = \<lparr>b_bytes = b_bytes (bytesFile (self s0)) @ d_chunk s0,
              b_pos = (if download_at s0 = D_tell then b_pos (bytesFile (self s0)) else 0)\<rparr>"
proof -
  from section_inv_from [OF assms(3) section_inv_start [OF buffer_inv_reachable [OF assms(1)] assms(2)]]
  have "section_file (download_at s0) D_unlock (bytesFile (self s0)) (d_chunk s0) (bytesFile (self s))"
    using assms(4) by (simp add: section_inv_def)
  with assms(2) show ?thesis by (auto simp: section_file_def)
qed

lemma run_locked_reachable:
  "reachable_locked lib B ok chunks s \<Longrightarrow> run_schedule_locked lib B ts s = Some s' \<Longrightarrow>
     reachable_locked lib B ok chunks s'"
proof (induction ts arbitrary: s)
  case Nil
  then show ?case by simp
next
  case (Cons t ts)
  then show ?case
    by (auto split: option.splits if_splits intro: locked_step)
qed

lemma reachable_locked_run:
  assumes "run_schedule_locked lib B ts (initial_system ok chunks) \<noteq> None"
  shows "reachable_locked lib B ok chunks
           (the (run_schedule_locked lib B ts (initial_system ok chunks)))"
proof -
  from assms have "run_schedule_locked lib B ts (initial_system ok chunks)
      = Some (the (run_schedule_locked lib B ts (initial_system ok chunks)))" by simp
  from run_locked_reachable [OF locked_initial this] show ?thesis .
qed

lemma run_section_from:
  "section_from lib B s0 s \<Longrightarrow> run_section lib B ts s = Some s' \<Longrightarrow> section_from lib B s0 s'"
proof (induction ts arbitrary: s)
  case Nil
  then show ?case by simp
next
  case (Cons t ts)
  then show ?case
    by (auto split: option.splits if_splits intro: section_step)
qed

lemma read_twice:
  "fst (read n f) @ fst (read m (snd (read n f))) = fst (read (n + m) f)"
proof -
  have "take n xs @ take m (drop (length (take n xs)) xs) = take (n + m) xs" for xs :: "byte list"
  proof (cases "n \<le> length xs")
    case True
    then show ?thesis by (simp add: min_def take_add)
  next
    case False
    then show ?thesis by simp
  qed
  from this [of "drop (b_pos f) (b_bytes f)"] show ?thesis
    by (simp add: read_def Let_def add.commute)
qed

text \<open>
  C1, as the code has it. In every state of a session in which no statement of lines
  483-485 is executed while another thread holds the lock:
  \<^item> the buffer, the chunk the downloader has in hand and the chunks still to come make
    up the response: every append wrote at the logical end, and the buffer holds the
    chunks appended so far, in order, and nothing else;
  \<^item> when the downloader has returned, the buffer is the concatenation of the chunks;
  \<^item> a critical section of the downloader, however the other threads are scheduled
    meanwhile, appends its chunk at the logical end and leaves the cursor where it was
    if \<^verbatim>\<open>headerReadyEvent\<close> was set (line 555), and at the start if it was clear (line
    548);
  \<^item> a read of the buffer returns the bytes of the response at the cursor's offset and
    advances the cursor by their number, so that two reads in a row return what one
    read of both lengths returns.
  The cursor does not only advance: line 548, the handler of a failed construction
  (lines 483-485) and the fresh parser of line 625 start again at offset 0.
\<close>

theorem buffer_appends_under_lock:
  assumes "reachable_locked lib playbackBlockSize ok chunks s"
  shows "b_bytes (bytesFile (self s))
           @ (if chunk_in_hand (download_at s) then d_chunk s else [])
           @ concat (pending s) = concat chunks
       \<and> (download_at s = D_returned \<longrightarrow> b_bytes (bytesFile (self s)) = concat chunks)
       \<and> (\<forall>s'. (download_at s = D_tell \<or> download_at s = D_first_seek_end)
                \<and> section_from lib playbackBlockSize s s' \<and> download_at s' = D_unlock \<longrightarrow>
             bytesFile (self s')
               = \<lparr>b_bytes = b_bytes (bytesFile (self s)) @ d_chunk s,
                  b_pos = (if download_at s = D_tell then b_pos (bytesFile (self s)) else 0)\<rparr>)
       \<and> (\<forall>n. read n (bytesFile (self s))
               = (take n (drop (b_pos (bytesFile (self s)))
                            (take (length (b_bytes (bytesFile (self s)))) (concat chunks))),
                  (bytesFile (self s))
                    \<lparr>b_pos := b_pos (bytesFile (self s))
                        + length (take n (drop (b_pos (bytesFile (self s)))
                            (take (length (b_bytes (bytesFile (self s)))) (concat chunks))))\<rparr>))
       \<and> (\<forall>n m. fst (read n (bytesFile (self s)))
                   @ fst (read m (snd (read n (bytesFile (self s)))))
                 = fst (read (n + m) (bytesFile (self s))))"
proof -
  from buffer_inv_reachable [OF assms] have inv: "buffer_inv chunks s" .
  then have c: "b_bytes (bytesFile (self s))
           @ (if chunk_in_hand (download_at s) then d_chunk s else [])
           @ concat (pending s) = concat chunks"
    and p: "download_at s = D_returned \<longrightarrow> pending s = []"
    by (simp_all add: buffer_inv_def)
  from c p have e: "download_at s = D_returned \<longrightarrow> b_bytes (bytesFile (self s)) = concat chunks"
    by auto
  have a: "\<forall>s'. (download_at s = D_tell \<or> download_at s = D_first_seek_end)
                \<and> section_from lib playbackBlockSize s s' \<and> download_at s' = D_unlock \<longrightarrow>
             bytesFile (self s')
               = \<lparr>b_bytes = b_bytes (bytesFile (self s)) @ d_chunk s,
                  b_pos = (if download_at s = D_tell then b_pos (bytesFile (self s)) else 0)\<rparr>"
    using section_result [OF assms] by blast
  from c have "take (length (b_bytes (bytesFile (self s)))) (concat chunks)
                 = b_bytes (bytesFile (self s))"
    by (metis append_eq_conv_conj)
  then have r: "\<forall>n. read n (bytesFile (self s))
               = (take n (drop (b_pos (bytesFile (self s)))
                            (take (length (b_bytes (bytesFile (self s)))) (concat chunks))),
                  (bytesFile (self s))
                    \<lparr>b_pos := b_pos (bytesFile (self s))
                        + length (take n (drop (b_pos (bytesFile (self s)))
                            (take (length (b_bytes (bytesFile (self s)))) (concat chunks))))\<rparr>)"
    by (simp add: read_def Let_def)
  have t: "\<forall>n m. fst (read n (bytesFile (self s)))
                   @ fst (read m (snd (read n (bytesFile (self s)))))
                 = fst (read (n + m) (bytesFile (self s)))"
    by (simp add: read_twice)
  from c e a r t show ?thesis by blast
qed

text \<open>
  Instances: the append of a block with \<^verbatim>\<open>headerReadyEvent\<close> set, with an invocation of
  the playback callback in between; the buffer after the download, and a read of four
  bytes of it; the append of the second header byte with \<^verbatim>\<open>headerReadyEvent\<close> clear,
  while the main thread sets \<^verbatim>\<open>soundFileReadyEvent\<close>.
\<close>

theorem buffer_appends_under_lock_witness:
  "reachable_locked raw_lib 2 True sound_two_chunks before_append
   \<and> download_at before_append = D_tell
   \<and> bytesFile (self before_append) = \<lparr>b_bytes = [82, 1], b_pos = 2\<rparr>
   \<and> d_chunk before_append = [1, 2, 3, 4, 5, 6, 7, 8]
   \<and> section_from raw_lib 2 before_append after_append
   \<and> download_at after_append = D_unlock
   \<and> bytesFile (self after_append)
       = \<lparr>b_bytes = [82, 1, 1, 2, 3, 4, 5, 6, 7, 8], b_pos = 2\<rparr>
   \<and> reachable_locked raw_lib 2 True sound_two_chunks download_returned
   \<and> download_at download_returned = D_returned
   \<and> b_bytes (bytesFile (self download_returned)) = [82, 1, 1, 2, 3, 4, 5, 6, 7, 8]
   \<and> read 4 (bytesFile (self download_returned))
       = ([1, 2, 3, 4], (bytesFile (self download_returned))\<lparr>b_pos := 6\<rparr>)
   \<and> reachable_locked raw_lib 2 True split_header_chunks before_header_append
   \<and> download_at before_header_append = D_first_seek_end
   \<and> main_at before_header_append = M_except_set
   \<and> bytesFile (self before_header_append) = \<lparr>b_bytes = [82], b_pos = 0\<rparr>
   \<and> section_from raw_lib 2 before_header_append after_header_append
   \<and> download_at after_header_append = D_unlock
   \<and> bytesFile (self after_header_append) = \<lparr>b_bytes = [82, 1], b_pos = 0\<rparr>"
proof -
  have r0: "reachable_locked raw_lib 2 True sound_two_chunks before_append"
    unfolding before_append_def by (rule reachable_locked_run) code_simp
  have a0: "download_at before_append = D_tell" by code_simp
  have f0: "bytesFile (self before_append) = \<lparr>b_bytes = [82, 1], b_pos = 2\<rparr>" by code_simp
  have c0: "d_chunk before_append = [1, 2, 3, 4, 5, 6, 7, 8]" by code_simp
  have "run_section raw_lib 2 (DownloadThread # CallbackThread # replicate 6 DownloadThread)
          before_append \<noteq> None" by code_simp
  then have "run_section raw_lib 2 (DownloadThread # CallbackThread # replicate 6 DownloadThread)
          before_append = Some after_append"
    by (simp add: after_append_def)
  from run_section_from [OF section_start this]
  have s0: "section_from raw_lib 2 before_append after_append" .
  have a1: "download_at after_append = D_unlock" by code_simp
  from buffer_appends_under_lock [OF r0] a0 s0 a1
  have "bytesFile (self after_append)
          = \<lparr>b_bytes = b_bytes (bytesFile (self before_append)) @ d_chunk before_append,
             b_pos = (if download_at before_append = D_tell
                      then b_pos (bytesFile (self before_append)) else 0)\<rparr>"
    by blast
  with a0 f0 c0 have f1: "bytesFile (self after_append)
       = \<lparr>b_bytes = [82, 1, 1, 2, 3, 4, 5, 6, 7, 8], b_pos = 2\<rparr>"
    by simp
  have r2: "reachable_locked raw_lib 2 True sound_two_chunks download_returned"
    unfolding download_returned_def by (rule reachable_locked_run) code_simp
  have a2: "download_at download_returned = D_returned" by code_simp
  have cc: "concat sound_two_chunks = [82, 1, 1, 2, 3, 4, 5, 6, 7, 8]"
    by (simp add: sound_two_chunks_def)
  from buffer_appends_under_lock [OF r2] a2 cc
  have b2: "b_bytes (bytesFile (self download_returned)) = [82, 1, 1, 2, 3, 4, 5, 6, 7, 8]"
    by simp
  have p2: "b_pos (bytesFile (self download_returned)) = 2" by code_simp
  from buffer_appends_under_lock [OF r2]
  have "read 4 (bytesFile (self download_returned))
               = (take 4 (drop (b_pos (bytesFile (self download_returned)))
                            (take (length (b_bytes (bytesFile (self download_returned))))
                               (concat sound_two_chunks))),
                  (bytesFile (self download_returned))
                    \<lparr>b_pos := b_pos (bytesFile (self download_returned))
                        + length (take 4 (drop (b_pos (bytesFile (self download_returned)))
                            (take (length (b_bytes (bytesFile (self download_returned))))
                               (concat sound_two_chunks))))\<rparr>)"
    by blast
  with b2 p2 cc have rd: "read 4 (bytesFile (self download_returned))
       = ([1, 2, 3, 4], (bytesFile (self download_returned))\<lparr>b_pos := 6\<rparr>)"
    by simp
  have r3: "reachable_locked raw_lib 2 True split_header_chunks before_header_append"
    unfolding before_header_append_def by (rule reachable_locked_run) code_simp
  have a3: "download_at before_header_append = D_first_seek_end" by code_simp
  have m3: "main_at before_header_append = M_except_set" by code_simp
  have f3: "bytesFile (self before_header_append) = \<lparr>b_bytes = [82], b_pos = 0\<rparr>"
    by code_simp
  have c3: "d_chunk before_header_append = [1]" by code_simp
  have "run_section raw_lib 2
          [DownloadThread, MainThread, DownloadThread, DownloadThread, DownloadThread]
          before_header_append \<noteq> None" by code_simp
  then have "run_section raw_lib 2
          [DownloadThread, MainThread, DownloadThread, DownloadThread, DownloadThread]
          before_header_append = Some after_header_append"
    by (simp add: after_header_append_def)
  from run_section_from [OF section_start this]
  have s3: "section_from raw_lib 2 before_header_append after_header_append" .
  have a4: "download_at after_header_append = D_unlock" by code_simp
  from buffer_appends_under_lock [OF r3] a3 s3 a4
  have "bytesFile (self after_header_append)
          = \<lparr>b_bytes = b_bytes (bytesFile (self before_header_append))
                         @ d_chunk before_header_append,
             b_pos = (if download_at before_header_append = D_tell
                      then b_pos (bytesFile (self before_header_append)) else 0)\<rparr>"
    by blast
  with a3 f3 c3 have f4: "bytesFile (self after_header_append)
       = \<lparr>b_bytes = [82, 1], b_pos = 0\<rparr>"
    by simp
  from r0 a0 f0 c0 s0 a1 f1 r2 a2 b2 rd r3 a3 m3 f3 s3 a4 f4 show ?thesis by blast
qed

text \<open>
  The bytes the parser reads are not the concatenation of the chunks. With the header
  cut in two, the first construction reads the byte at offset 0 and fails; the handler
  moves the cursor back; the second construction reads from offset 0 again and
  succeeds. No statement of the handler runs while the downloader holds the lock. The
  parser has read the first byte twice.
\<close>

theorem buffer_read_twice_counterexample:
  "(case run_schedule_locked raw_lib 2 (replicate 10 DownloadThread @ replicate 2 MainThread)
           (initial_system True split_header_chunks) of
      None \<Rightarrow> False
    | Some s \<Rightarrow>
        main_at s = M_open \<and> bytesFile (self s) = \<lparr>b_bytes = [82], b_pos = 0\<rparr>
        \<and> (case run_schedule_locked raw_lib 2 [MainThread] s of
             None \<Rightarrow> False
           | Some s1 \<Rightarrow>
               main_at s1 = M_except_seek
               \<and> bytesFile (self s1) = \<lparr>b_bytes = [82], b_pos = 1\<rparr>
               \<and> (case run_schedule_locked raw_lib 2
                         (replicate 5 MainThread @ replicate 9 DownloadThread
                          @ replicate 2 MainThread) s1 of
                    None \<Rightarrow> False
                  | Some s2 \<Rightarrow>
                      main_at s2 = M_open
                      \<and> bytesFile (self s2) = \<lparr>b_bytes = [82, 1], b_pos = 0\<rparr>
                      \<and> (case run_schedule_locked raw_lib 2 [MainThread] s2 of
                           None \<Rightarrow> False
                         | Some s3 \<Rightarrow>
                             main_at s3 = M_set_ready
                             \<and> download_at s3 = D_next_chunk \<and> pending s3 = []
                             \<and> bytesFile (self s3) = \<lparr>b_bytes = [82, 1], b_pos = 2\<rparr>
                             \<and> fst (read 1 (bytesFile (self s)))
                                 @ fst (read 2 (bytesFile (self s2))) = [82, 82, 1]
                             \<and> concat split_header_chunks = [82, 1]))))"
  by code_simp

subsection \<open>The handshake of the two events\<close>

lemma handshake_main:
  assumes "handshake_inv s" and st: "main_step lib B s = Some s'"
  shows "handshake_inv s'"
  using assms(1) main_step_header [OF st] main_step_soundfile [OF st] main_step_download_at [OF st]
    main_step_to_lock_header [OF st] main_step_to_open [OF st]
  unfolding handshake_inv_def by auto

lemma handshake_download:
  assumes "handshake_inv s" and st: "download_step B s = Some s'"
  shows "handshake_inv s'"
  using assms(1) download_step_header [OF st] download_step_soundfile [OF st]
    download_step_main_at [OF st] download_step_pred [OF st]
  unfolding handshake_inv_def
  by (cases "download_at s'") auto

lemma handshake_callback:
  assumes "handshake_inv s" and st: "callback_step B s = Some s'"
  shows "handshake_inv s'"
  using assms(1) callback_step_frame [OF st]
  unfolding handshake_inv_def by simp

lemma handshake_initial: "handshake_inv (initial_system ok chunks)"
  by (simp add: handshake_inv_def initial_system_def)

lemma handshake_reachable:
  "reachable lib B ok chunks s \<Longrightarrow> handshake_inv s"
proof (induction rule: reachable.induct)
  case reachable_initial
  show ?case by (rule handshake_initial)
next
  case (reachable_step s t s')
  then show ?case
    by (cases t)
       (auto simp: system_step_def intro: handshake_main handshake_download handshake_callback)
qed

lemma handler_steps:
  assumes "main_at s = M_except_seek"
  shows "run_schedule lib B (replicate 5 MainThread) s
           = Some (s\<lparr>self := soundfile_error_handler (self s), main_at := M_wait_header\<rparr>)"
  using assms
  by (simp add: numeral_eq_Suc system_step_def main_step_def on_file_def on_events_def
      soundfile_error_handler_def read_all_def seek_def Let_def)

text \<open>
  C7, what the code does. \<^verbatim>\<open>soundFileReadyEvent\<close> is cleared in line 536 only, after a
  wait that found \<^verbatim>\<open>headerReadyEvent\<close> cleared; with a chunk fetched while
  \<^verbatim>\<open>headerReadyEvent\<close> is clear the downloader skips lines 532-536, and the event stays
  set as the handler of the failed construction left it. The handler (lines 483-488) is
  outside the \<^verbatim>\<open>with\<close> block of line 476 and runs without the lock.

  In the run below neither the first chunk nor the first two make up a header. The
  construction on the first chunk fails and its handler sets \<^verbatim>\<open>soundFileReadyEvent\<close>; the second chunk is appended
  without a wait and sets \<^verbatim>\<open>headerReadyEvent\<close>; the construction on two chunks fails as
  well, and before its handler has executed a statement the downloader, with the third
  chunk, sees \<^verbatim>\<open>headerReadyEvent\<close> set, passes the wait on the event left by the first
  handler, and is inside the append of the header-ready branch, holding the lock: it
  appends while the parser has not been constructed and the failure is not handled.
  \<^item> If the downloader writes first, the handler's rewind is undone by line 555: the
    handler ends with the cursor at offset 2, not at the start, and with
    \<^verbatim>\<open>headerReadyEvent\<close> clear.
  \<^item> If the handler's line 483 comes first, the write of line 553 is made at offset 0 and
    overwrites the two bytes of the buffer.
\<close>

theorem append_during_pending_handler:
  "(case run_schedule raw_lib 2
           (replicate 10 DownloadThread @ replicate 8 MainThread @ replicate 9 DownloadThread
            @ replicate 3 MainThread @ replicate 8 DownloadThread)
           (initial_system True bad_header_chunks) of
      None \<Rightarrow> False
    | Some s \<Rightarrow>
        main_at s = M_except_seek \<and> download_at s = D_write
        \<and> bytesLock s = Some DownloadThread
        \<and> headerReadyEvent (ev s) \<and> soundFileReadyEvent (ev s)
        \<and> bytesFile (self s) = \<lparr>b_bytes = [82, 0], b_pos = 2\<rparr>
        \<and> (case run_schedule raw_lib 2
                   (replicate 2 DownloadThread @ replicate 5 MainThread @ [DownloadThread]) s of
             None \<Rightarrow> False
           | Some s' \<Rightarrow>
               main_at s' = M_wait_header \<and> \<not> headerReadyEvent (ev s')
               \<and> soundFileReadyEvent (ev s')
               \<and> bytesFile (self s') = \<lparr>b_bytes = [82, 0, 9, 9], b_pos = 2\<rparr>)
        \<and> (case run_schedule raw_lib 2 [MainThread, DownloadThread] s of
             None \<Rightarrow> False
           | Some s' \<Rightarrow> b_bytes (bytesFile (self s')) = [9, 9]))"
  by code_simp

subsection \<open>A response with a failure status\<close>

lemma failed_status_step:
  "failed_status_inv s \<Longrightarrow> system_step lib B t s = Some s' \<Longrightarrow> failed_status_inv s'"
  by (cases t)
     (auto simp: failed_status_inv_def system_step_def main_step_def download_step_def
        callback_step_def ev_def fresh_streamer_def events_clear_def split: if_splits)

lemma failed_status_reachable:
  "reachable lib B False chunks s \<Longrightarrow> failed_status_inv s"
proof (induction rule: reachable.induct)
  case reachable_initial
  show ?case by (simp add: failed_status_inv_def initial_system_def)
next
  case (reachable_step s t s')
  then show ?case by (blast intro: failed_status_step)
qed

text \<open>
  C6, what the code does. With a failure status \<^verbatim>\<open>raise_for_status\<close> raises inside the
  download thread and ends that thread only. In every state the session can reach, the
  main thread is still at its first wait for \<^verbatim>\<open>headerReadyEvent\<close> and has no step to
  take, no exception has left \<^verbatim>\<open>begin_streaming\<close>, the stream was never opened (so no
  playback callback runs) and the streamer object is as it was reset: the call neither
  returns nor raises.
\<close>

theorem failed_status_blocks_forever:
  assumes "reachable lib playbackBlockSize False chunks s"
  shows "main_at s = M_wait_header \<and> main_step lib playbackBlockSize s = None
       \<and> callback_step playbackBlockSize s = None
       \<and> (download_at s = D_raise_for_status \<or> download_at s = D_raised)
       \<and> m_exc s = None \<and> out_stream s = NotOpened \<and> self s = fresh_streamer"
  using failed_status_reachable [OF assms]
  by (simp add: failed_status_inv_def main_step_def callback_step_def ev_def
      fresh_streamer_def events_clear_def)

text \<open>The state after the download thread has raised: no thread has a step.\<close>

theorem failed_status_blocks_forever_witness:
  "reachable raw_lib 2 False sound_two_chunks
     (the (run_schedule raw_lib 2 [DownloadThread] (initial_system False sound_two_chunks)))
   \<and> download_at (the (run_schedule raw_lib 2 [DownloadThread]
        (initial_system False sound_two_chunks))) = D_raised
   \<and> main_at (the (run_schedule raw_lib 2 [DownloadThread]
        (initial_system False sound_two_chunks))) = M_wait_header
   \<and> system_step raw_lib 2 MainThread (the (run_schedule raw_lib 2 [DownloadThread]
        (initial_system False sound_two_chunks))) = None
   \<and> system_step raw_lib 2 DownloadThread (the (run_schedule raw_lib 2 [DownloadThread]
        (initial_system False sound_two_chunks))) = None
   \<and> system_step raw_lib 2 CallbackThread (the (run_schedule raw_lib 2 [DownloadThread]
        (initial_system False sound_two_chunks))) = None
   \<and> m_exc (the (run_schedule raw_lib 2 [DownloadThread]
        (initial_system False sound_two_chunks))) = None"
proof -
  let ?s = "the (run_schedule raw_lib 2 [DownloadThread] (initial_system False sound_two_chunks))"
  have r: "reachable raw_lib 2 False sound_two_chunks ?s"
    by (rule reachable_run) code_simp
  have d: "download_at ?s = D_raised" by code_simp
  have dn: "download_step 2 ?s = None" by code_simp
  from failed_status_blocks_forever [OF r] r d dn show ?thesis
    by (simp add: system_step_def)
qed

subsection \<open>The playback-started callback\<close>

lemma playback_start_main:
  assumes "playback_start_inv B s" and st: "main_step lib B s = Some s'"
    and "0 < B" and lib: "opens_with_channels lib"
  shows "playback_start_inv B s'"
proof -
  from assms(1) have i: "onPlaybackStart_calls (self s) = (if playbackStartFired (ev s) then 1 else 0)"
    "\<forall>x\<in>set (queue (self s)). x \<noteq> []"
    "main_at s = M_put \<longrightarrow> length (m_data s) = B * frameSize (self s)"
    "feeding (main_at s) \<longrightarrow> 0 < frameSize (self s)"
    by (simp_all add: playback_start_inv_def)
  have 1: "onPlaybackStart_calls (self s') = (if playbackStartFired (ev s') then 1 else 0)"
    using i(1) main_step_start_calls [OF st] main_step_start_fired [OF st] by simp
  have put: "main_at s = M_put \<longrightarrow> m_data s \<noteq> []"
    using i(3,4) \<open>0 < B\<close> by auto
  have 2: "\<forall>x\<in>set (queue (self s')). x \<noteq> []"
    using i(2) put main_step_queue [OF st] by auto
  have 3: "main_at s' = M_put \<longrightarrow> length (m_data s') = B * frameSize (self s')"
    using main_step_to_put [OF st] by blast
  have 4: "feeding (main_at s') \<longrightarrow> 0 < frameSize (self s')"
    using main_step_frameSize [OF lib st] i(4) by blast
  from 1 2 3 4 show ?thesis by (simp add: playback_start_inv_def)
qed

lemma playback_start_download:
  assumes "playback_start_inv B s" and st: "download_step B s = Some s'"
  shows "playback_start_inv B s'"
  using assms(1) download_step_self [OF st] download_step_main_at [OF st]
  by (simp add: playback_start_inv_def)

lemma playback_start_callback:
  assumes "playback_start_inv B s" and st: "callback_step B s = Some s'"
  shows "playback_start_inv B s'"
  using assms(1) callback_step_self [OF st] callback_step_fires [OF st]
  by (auto simp: playback_start_inv_def)

lemma playback_start_reachable:
  assumes "0 < B" and "opens_with_channels lib"
  shows "reachable lib B ok chunks s \<Longrightarrow> playback_start_inv B s"
proof (induction rule: reachable.induct)
  case reachable_initial
  show ?case
    by (simp add: playback_start_inv_def initial_system_def fresh_streamer_def ev_def
        events_clear_def)
next
  case (reachable_step s t s')
  then show ?case using assms
    by (cases t)
       (auto simp: system_step_def
          intro: playback_start_main playback_start_download playback_start_callback)
qed

text \<open>
  C4, as the code has it. With a positive block size and a library whose files have at
  least one channel, in every state a session can reach: \<^verbatim>\<open>_onPlaybackStart\<close> has been
  called once if the latch \<^verbatim>\<open>playbackStartFired\<close> is set and never if it is clear, so
  at most once; an invocation of the playback callback calls it exactly when the latch
  is clear and the invocation takes a block off the queue, and that block is not empty;
  no step of the other threads calls it. A session in which no invocation takes a block
  off the queue never calls it.
\<close>

theorem playback_start_at_most_once:
  assumes "reachable lib playbackBlockSize ok chunks s"
    and "0 < playbackBlockSize" and "opens_with_channels lib"
  shows "onPlaybackStart_calls (self s) = (if playbackStartFired (ev s) then 1 else 0)
       \<and> (\<forall>s'. callback_step playbackBlockSize s = Some s' \<longrightarrow>
             onPlaybackStart_calls (self s')
               = onPlaybackStart_calls (self s)
                 + (if \<not> playbackStartFired (ev s)
                       \<and> (\<exists>d rest. pop_block (downloadDoneEvent (ev s)) (queue (self s)) = (Inr d, rest)
                                    \<and> d \<noteq> [])
                    then 1 else 0))
       \<and> (\<forall>t s'. t \<noteq> CallbackThread \<and> system_step lib playbackBlockSize t s = Some s' \<longrightarrow>
             onPlaybackStart_calls (self s') = onPlaybackStart_calls (self s))"
proof -
  from playback_start_reachable [OF assms(2,3) assms(1)]
  have inv: "playback_start_inv playbackBlockSize s" .
  then have q: "\<forall>x\<in>set (queue (self s)). x \<noteq> []"
    and c: "onPlaybackStart_calls (self s) = (if playbackStartFired (ev s) then 1 else 0)"
    by (simp_all add: playback_start_inv_def)
  have ne: "\<And>d rest. pop_block (downloadDoneEvent (ev s)) (queue (self s)) = (Inr d, rest) \<Longrightarrow> d \<noteq> []"
    using q pop_block_member by blast
  have ex: "(\<exists>d rest. pop_block (downloadDoneEvent (ev s)) (queue (self s)) = (Inr d, rest) \<and> d \<noteq> [])
          = (\<exists>d rest. pop_block (downloadDoneEvent (ev s)) (queue (self s)) = (Inr d, rest))"
    using ne by blast
  have cb: "\<forall>s'. callback_step playbackBlockSize s = Some s' \<longrightarrow>
             onPlaybackStart_calls (self s')
               = onPlaybackStart_calls (self s)
                 + (if \<not> playbackStartFired (ev s)
                       \<and> (\<exists>d rest. pop_block (downloadDoneEvent (ev s)) (queue (self s)) = (Inr d, rest)
                                    \<and> d \<noteq> [])
                    then 1 else 0)"
    unfolding ex using callback_step_fires by blast
  have other: "\<forall>t s'. t \<noteq> CallbackThread \<and> system_step lib playbackBlockSize t s = Some s' \<longrightarrow>
             onPlaybackStart_calls (self s') = onPlaybackStart_calls (self s)"
  proof (intro allI impI)
    fix t s' assume a: "t \<noteq> CallbackThread \<and> system_step lib playbackBlockSize t s = Some s'"
    then show "onPlaybackStart_calls (self s') = onPlaybackStart_calls (self s)"
      by (cases t) (auto simp: system_step_def dest: main_step_start_calls download_step_self)
  qed
  from c cb other show ?thesis by blast
qed

text \<open>
  An instance: the block of two frames is in the queue and the latch is clear; the next
  invocation of the playback callback makes the first call, a step of the downloader
  makes none.
\<close>

theorem playback_start_at_most_once_witness:
  "reachable raw_lib 2 True sound_two_chunks
     (the (run_schedule raw_lib 2
        (replicate 10 DownloadThread @ replicate 6 MainThread @ replicate 15 DownloadThread
         @ replicate 9 MainThread) (initial_system True sound_two_chunks)))
   \<and> onPlaybackStart_calls (self (the (run_schedule raw_lib 2
        (replicate 10 DownloadThread @ replicate 6 MainThread @ replicate 15 DownloadThread
         @ replicate 9 MainThread) (initial_system True sound_two_chunks)))) = 0
   \<and> onPlaybackStart_calls (self (the (callback_step 2 (the (run_schedule raw_lib 2
        (replicate 10 DownloadThread @ replicate 6 MainThread @ replicate 15 DownloadThread
         @ replicate 9 MainThread) (initial_system True sound_two_chunks)))))) = 1
   \<and> onPlaybackStart_calls (self (the (system_step raw_lib 2 DownloadThread
        (the (run_schedule raw_lib 2
        (replicate 10 DownloadThread @ replicate 6 MainThread @ replicate 15 DownloadThread
         @ replicate 9 MainThread) (initial_system True sound_two_chunks)))))) = 0"
proof -
  let ?s = "the (run_schedule raw_lib 2
        (replicate 10 DownloadThread @ replicate 6 MainThread @ replicate 15 DownloadThread
         @ replicate 9 MainThread) (initial_system True sound_two_chunks))"
  have r: "reachable raw_lib 2 True sound_two_chunks ?s"
    by (rule reachable_run) code_simp
  have f: "\<not> playbackStartFired (ev ?s)" by code_simp
  have p: "pop_block (downloadDoneEvent (ev ?s)) (queue (self ?s))
             = (Inr [1, 2, 3, 4, 5, 6, 7, 8], [])" by code_simp
  have c: "callback_step 2 ?s = Some (the (callback_step 2 ?s))"
  proof -
    have "callback_step 2 ?s \<noteq> None" by code_simp
    then show ?thesis by simp
  qed
  have pos: "0 < (2::nat)" by simp
  note t = playback_start_at_most_once [OF r pos raw_lib_opens_with_channels]
  from t f have z: "onPlaybackStart_calls (self ?s) = 0" by simp
  from t c f p have "onPlaybackStart_calls (self (the (callback_step 2 ?s)))
      = onPlaybackStart_calls (self ?s) + 1"
    by auto
  moreover have d: "system_step raw_lib 2 DownloadThread ?s
      = Some (the (system_step raw_lib 2 DownloadThread ?s))"
  proof -
    have "system_step raw_lib 2 DownloadThread ?s \<noteq> None" by code_simp
    then show ?thesis by simp
  qed
  from t d have "onPlaybackStart_calls (self (the (system_step raw_lib 2 DownloadThread ?s)))
      = onPlaybackStart_calls (self ?s)"
    by blast
  ultimately show ?thesis using z r by simp
qed

text \<open>
  Two sessions that return without a call of \<^verbatim>\<open>_onPlaybackStart\<close>. In the first the
  device invokes the playback callback as soon as the stream is open: the queue is
  empty, the download is not over, the callback aborts the stream; the feed loop then
  queues the block and ends, and \<^verbatim>\<open>_onPlaybackEnd\<close> is called. In the second the sound
  has a header and no frame: the feed loop ends without queueing, the callback stops the
  stream on the empty queue.
\<close>

theorem playback_start_never_fired_counterexample:
  "(case run_schedule raw_lib 2
           (replicate 10 DownloadThread @ replicate 6 MainThread @ [CallbackThread]
            @ replicate 17 DownloadThread @ replicate 23 MainThread)
           (initial_system True sound_two_chunks) of
      None \<Rightarrow> False
    | Some s \<Rightarrow>
        main_at s = M_returned \<and> download_at s = D_returned \<and> out_stream s = Finished
        \<and> m_exc s = None
        \<and> queue (self s) = [[1, 2, 3, 4, 5, 6, 7, 8]]
        \<and> onPlaybackStart_calls (self s) = 0 \<and> onPlaybackEnd_calls (self s) = 1)
   \<and> (case run_schedule raw_lib 2
           (replicate 10 DownloadThread @ replicate 6 MainThread @ replicate 3 DownloadThread
            @ replicate 12 MainThread @ [CallbackThread] @ replicate 3 MainThread)
           (initial_system True [[82, 1]]) of
      None \<Rightarrow> False
    | Some s \<Rightarrow>
        main_at s = M_returned \<and> download_at s = D_returned \<and> out_stream s = Finished
        \<and> m_exc s = None
        \<and> onPlaybackStart_calls (self s) = 0 \<and> onPlaybackEnd_calls (self s) = 1)"
  by code_simp

subsection \<open>The block-available event after the download\<close>

text \<open>
  C10, what the code does. The feed loop tests \<^verbatim>\<open>downloadDoneEvent\<close> in line 654 and
  clears \<^verbatim>\<open>blockDataAvailable\<close> in line 656; the downloader sets both events in lines
  562-563 without the lock. In the run below the test comes first, then the downloader
  sets the two events and returns, and then the clear is executed: with the download
  over, \<^verbatim>\<open>blockDataAvailable\<close> is cleared. The block is queued and played, the stream
  stops on the empty queue, and the feed loop is at its wait on
  \<^verbatim>\<open>blockDataAvailable\<close>: no thread has a step, and \<^verbatim>\<open>begin_streaming\<close> does not return.
\<close>

theorem block_available_cleared_after_done:
  "(case run_schedule raw_lib 2
           (replicate 10 DownloadThread @ replicate 6 MainThread @ replicate 15 DownloadThread
            @ replicate 5 MainThread @ replicate 2 DownloadThread)
           (initial_system True sound_two_chunks) of
      None \<Rightarrow> False
    | Some s \<Rightarrow>
        main_at s = M_clear_block \<and> download_at s = D_returned
        \<and> downloadDoneEvent (ev s) \<and> blockDataAvailable (ev s)
        \<and> (case run_schedule raw_lib 2 (replicate 4 MainThread @ replicate 2 CallbackThread) s of
             None \<Rightarrow> False
           | Some s' \<Rightarrow>
               main_at s' = M_wait_block \<and> download_at s' = D_returned
               \<and> out_stream s' = Finished
               \<and> downloadDoneEvent (ev s') \<and> \<not> blockDataAvailable (ev s')
               \<and> system_step raw_lib 2 MainThread s' = None
               \<and> system_step raw_lib 2 DownloadThread s' = None
               \<and> system_step raw_lib 2 CallbackThread s' = None))"
  by code_simp

end
